theory Spec2Isabelle
  imports Complex_Main "HOL-Library.Multiset" "HOL-Library.Product_Lexorder"
begin

section \<open>Data model of the task board back end\<close>

text \<open>
  The back end keeps three Mongoose collections (tasks, users, activities) and serves
  them through Express controllers. Documents are records, collections are lists, a
  controller is a function from the database to a response and the new database.
  Object ids are natural numbers, dates are milliseconds since the epoch. A JavaScript
  number that holds an integer is written as that integer.
\<close>

type_synonym objectId = nat
type_synonym date = nat

text \<open>
  \<^verbatim>\<open>Number.isSafeInteger\<close>: magnitude at most \<open>2\<^sup>5\<^sup>3 - 1\<close>. Joi's \<^verbatim>\<open>number()\<close> refuses every
  other number.
\<close>

definition isSafeInteger :: "int \<Rightarrow> bool" where
  "isSafeInteger x = (\<bar>x\<bar> \<le> 9007199254740991)"

text \<open>
  \<^verbatim>\<open>x + 1\<close> on a double that holds an integer (\<^verbatim>\<open>this.version += 1\<close>, and \<^verbatim>\<open>$inc\<close> on a
  stored double): exact from \<open>-2\<^sup>5\<^sup>3\<close> up to \<open>2\<^sup>5\<^sup>3 - 1\<close>; beyond, the sum is rounded to the
  nearest double, ties to the even significand, so \<open>2\<^sup>5\<^sup>3\<close> stays \<open>2\<^sup>5\<^sup>3\<close>.
\<close>

definition plusOne :: "int \<Rightarrow> int" where
  "plusOne x =
     (if - 9007199254740992 \<le> x \<and> x < 9007199254740992 then x + 1
      else if \<bar>x\<bar> < 18014398509481984 \<and> x mod 4 = 2 then x + 2
      else x)"

datatype status = Todo | InProgress | Done

datatype priority = Low | Medium | High | Urgent

text \<open>
  A key of a request body that may be missing, \<^verbatim>\<open>null\<close> or a value
  (the Joi schemas declare \<^verbatim>\<open>assignedTo\<close> and \<^verbatim>\<open>dueDate\<close> with \<^verbatim>\<open>.allow(null)\<close>).
\<close>

datatype 'a field = Absent | Null | Value 'a

text \<open>
  Modelled from the spec: the User model is not among the sources. A user is what the
  controllers read of it: its id, the display name \<^verbatim>\<open>fullName\<close>, the role
  (compared with \<^verbatim>\<open>'admin'\<close>) and the flag \<^verbatim>\<open>isActive\<close>.
\<close>

record user =
  userId :: objectId
  fullName :: string
  role :: string
  isActive :: bool

record comment =
  commentText :: string
  author :: objectId
  commentCreatedAt :: date

text \<open>
  The task schema. The edit-session fields (\<^verbatim>\<open>isBeingEdited\<close>, \<^verbatim>\<open>editedBy\<close>,
  \<^verbatim>\<open>editStartTime\<close>) and \<^verbatim>\<open>attachments\<close> are written by no controller and are left out;
  \<^verbatim>\<open>createdAt\<close> and \<^verbatim>\<open>updatedAt\<close> come from \<^verbatim>\<open>timestamps: true\<close>. An unset reference
  and a \<^verbatim>\<open>null\<close> one are both \<open>None\<close>.
\<close>

record task =
  taskId :: objectId
  title :: string
  description :: string
  status :: status
  priority :: priority
  assignedTo :: "objectId option"
  createdBy :: objectId
  dueDate :: "date option"
  tags :: "string list"
  position :: int
  version :: int
  lastModified :: date
  lastModifiedBy :: "objectId option"
  comments :: "comment list"
  isArchived :: bool
  archivedAt :: "date option"
  archivedBy :: "objectId option"
  createdAt :: date
  updatedAt :: date

datatype action =
    task_created | task_updated | task_deleted | task_assigned | task_unassigned
  | task_moved | task_commented | task_archived | task_unarchived
  | user_registered | user_login | user_logout
  | conflict_detected | conflict_resolved | smart_assign

text \<open>JSON values, for response bodies and the free-form \<^verbatim>\<open>details\<close> of an activity.\<close>

datatype jsval =
    JUndefined
  | JNum int
  | JStr string
  | JRef "objectId option"
  | JDate "date option"
  | JStatus status
  | JPriority priority
  | JTask task
  | JUser user
  | JArr "jsval list"
  | JObj "(string \<times> jsval) list"

record activity =
  action :: action
  actor :: objectId
  target :: "objectId option"
  targetModel :: "string option"
  details :: "(string \<times> jsval) list"
  activityDescription :: string
  ipAddress :: string
  userAgent :: "string option"
  category :: string
  severity :: string
  conflictId :: "string option"
  isResolved :: bool

record db =
  tasks :: "task list"
  users :: "user list"
  activities :: "activity list"

text \<open>
  What a handler takes from outside the database: the regular expressions of the
  JavaScript runtime (\<^verbatim>\<open>new RegExp(pattern, 'i')\<close>, which throws a \<^verbatim>\<open>SyntaxError\<close> on a string
  that is no pattern, here \<open>None\<close>, and otherwise gives the test of a string; and the two
  address patterns of the activity schema), the clock, \<^verbatim>\<open>randomUUID()\<close>,
  \<^verbatim>\<open>Math.random()\<close> (a real number, the idealisation of a double) and the id Mongoose
  gives a new document.
\<close>

record runtime =
  regExp :: "string \<Rightarrow> (string \<Rightarrow> bool) option"
  ipv4Regex :: "string \<Rightarrow> bool"
  ipv6Regex :: "string \<Rightarrow> bool"
  clock :: date
  randomUUID :: string
  mathRandom :: real
  newObjectId :: objectId

record request =
  reqUser :: user
  ip :: string
  userAgentHeader :: "string option"

datatype response = Response nat "(string \<times> jsval) list"

fun statusCode :: "response \<Rightarrow> nat" where
  "statusCode (Response c b) = c"

fun body :: "response \<Rightarrow> (string \<times> jsval) list" where
  "body (Response c b) = b"

section \<open>Strings\<close>

text \<open>\<^verbatim>\<open>String.prototype.toLowerCase\<close>, on ASCII letters.\<close>

definition lowerChar :: "char \<Rightarrow> char" where
  "lowerChar c =
     (case map_of (zip ''ABCDEFGHIJKLMNOPQRSTUVWXYZ'' ''abcdefghijklmnopqrstuvwxyz'') c of
        None \<Rightarrow> c
      | Some l \<Rightarrow> l)"

definition toLowerCase :: "string \<Rightarrow> string" where
  "toLowerCase s = map lowerChar s"

definition columnNames :: "string list" where
  "columnNames = [''todo'', ''in progress'', ''done'']"

fun statusName :: "status \<Rightarrow> string" where
  "statusName Todo = ''todo''"
| "statusName InProgress = ''in-progress''"
| "statusName Done = ''done''"

section \<open>The Activity model\<close>

text \<open>A key of the \<^verbatim>\<open>details\<close> argument; a missing key prints as \<^verbatim>\<open>undefined\<close>.\<close>

definition detail :: "(string \<times> string) list \<Rightarrow> string \<Rightarrow> string" where
  "detail ds k = (case map_of ds k of None \<Rightarrow> ''undefined'' | Some v \<Rightarrow> v)"

fun createDescription :: "action \<Rightarrow> string \<Rightarrow> (string \<times> string) list \<Rightarrow> string" where
  "createDescription task_created actorName ds =
     actorName @ '' created task \"'' @ detail ds ''taskTitle'' @ ''\"''"
| "createDescription task_updated actorName ds =
     actorName @ '' updated task \"'' @ detail ds ''taskTitle'' @ ''\"''"
| "createDescription task_deleted actorName ds =
     actorName @ '' deleted task \"'' @ detail ds ''taskTitle'' @ ''\"''"
| "createDescription task_assigned actorName ds =
     actorName @ '' assigned task \"'' @ detail ds ''taskTitle'' @ ''\" to ''
       @ detail ds ''assigneeName''"
| "createDescription task_unassigned actorName ds =
     actorName @ '' unassigned task \"'' @ detail ds ''taskTitle'' @ ''\"''"
| "createDescription task_moved actorName ds =
     actorName @ '' moved task \"'' @ detail ds ''taskTitle'' @ ''\" from ''
       @ detail ds ''fromStatus'' @ '' to '' @ detail ds ''toStatus''"
| "createDescription task_commented actorName ds =
     actorName @ '' commented on task \"'' @ detail ds ''taskTitle'' @ ''\"''"
| "createDescription task_archived actorName ds =
     actorName @ '' archived task \"'' @ detail ds ''taskTitle'' @ ''\"''"
| "createDescription task_unarchived actorName ds =
     actorName @ '' unarchived task \"'' @ detail ds ''taskTitle'' @ ''\"''"
| "createDescription user_registered actorName ds = actorName @ '' registered as a new user''"
| "createDescription user_login actorName ds = actorName @ '' logged in''"
| "createDescription user_logout actorName ds = actorName @ '' logged out''"
| "createDescription conflict_detected actorName ds =
     ''Conflict detected on task \"'' @ detail ds ''taskTitle'' @ ''\" between '' @ actorName
       @ '' and '' @ detail ds ''otherUser''"
| "createDescription conflict_resolved actorName ds =
     actorName @ '' resolved conflict on task \"'' @ detail ds ''taskTitle'' @ ''\" using ''
       @ detail ds ''resolution''"
| "createDescription smart_assign actorName ds =
     ''Smart assign allocated task \"'' @ detail ds ''taskTitle'' @ ''\" to ''
       @ detail ds ''assigneeName''"

text \<open>The validator of \<^verbatim>\<open>ipAddress\<close> in the activity schema.\<close>

definition ipValidator :: "runtime \<Rightarrow> string \<Rightarrow> bool" where
  "ipValidator rt a =
     (a = [] \<or> ipv4Regex rt a \<or> ipv6Regex rt a \<or> a = ''localhost'' \<or> a = ''::1'')"

text \<open>
  Validation of a new activity document: \<^verbatim>\<open>description\<close> is required and at most 500
  characters, \<^verbatim>\<open>ipAddress\<close> passes its validator, \<^verbatim>\<open>userAgent\<close> is at most 500 characters,
  \<^verbatim>\<open>targetModel\<close> is required when there is a target.
\<close>

definition activityValid :: "runtime \<Rightarrow> activity \<Rightarrow> bool" where
  "activityValid rt a =
     (activityDescription a \<noteq> [] \<and> length (activityDescription a) \<le> 500
      \<and> ipValidator rt (ipAddress a)
      \<and> (case userAgent a of None \<Rightarrow> True | Some ua \<Rightarrow> length ua \<le> 500)
      \<and> (case target a of None \<Rightarrow> True | Some x \<Rightarrow> targetModel a \<noteq> None))"

text \<open>
  \<^verbatim>\<open>new this(activityData)\<close>: the schema is strict and declares \<^verbatim>\<open>details\<close> with the keys
  \<^verbatim>\<open>previous\<close>, \<^verbatim>\<open>current\<close> and \<^verbatim>\<open>metadata\<close>, so every other key of \<^verbatim>\<open>details\<close> is dropped.
\<close>

definition newActivity :: "activity \<Rightarrow> activity" where
  "newActivity a =
     a\<lparr>details := filter (\<lambda>kv. fst kv \<in> set [''previous'', ''current'', ''metadata''])
                      (details a)\<rparr>"

text \<open>
  \<^verbatim>\<open>Activity.logActivity\<close>: saves the activity; a failure is caught and logged, and the
  caller goes on.
\<close>

definition logActivity :: "runtime \<Rightarrow> activity \<Rightarrow> db \<Rightarrow> db" where
  "logActivity rt a st =
     (if activityValid rt (newActivity a)
      then st\<lparr>activities := activities st @ [newActivity a]\<rparr> else st)"

section \<open>The Task model\<close>

definition findById :: "objectId \<Rightarrow> task list \<Rightarrow> task option" where
  "findById i ts = find (\<lambda>t. taskId t = i) ts"

text \<open>
  Modelled from the spec: \<^verbatim>\<open>User.findById\<close> and \<^verbatim>\<open>User.findActiveUsers\<close> belong to the User
  model, which is not among the sources; the active users are the users whose
  \<^verbatim>\<open>isActive\<close> is set (Smart-Assign takes "the set of active users").
\<close>

definition findUserById :: "objectId \<Rightarrow> user list \<Rightarrow> user option" where
  "findUserById i us = find (\<lambda>u. userId u = i) us"

definition findActiveUsers :: "db \<Rightarrow> user list" where
  "findActiveUsers st = filter isActive (users st)"

text \<open>The validators of the task schema, path by path.\<close>

definition titleValid :: "string \<Rightarrow> bool" where
  "titleValid s = (s \<noteq> [] \<and> length s \<le> 200 \<and> toLowerCase s \<notin> set columnNames)"

definition dueDateValid :: "runtime \<Rightarrow> date option \<Rightarrow> bool" where
  "dueDateValid rt d = (case d of None \<Rightarrow> True | Some x \<Rightarrow> clock rt < x)"

definition tagsValid :: "string list \<Rightarrow> bool" where
  "tagsValid ts = list_all (\<lambda>s. length s \<le> 50) ts"

definition commentValid :: "comment \<Rightarrow> bool" where
  "commentValid c = (commentText c \<noteq> [] \<and> length (commentText c) \<le> 500)"

text \<open>
  Validation before a save, as the list of failing paths. Every path of the document is
  validated, the ones read from the database too: a stored due date that has passed since
  fails the validation of every later save.
\<close>

definition validationErrors :: "runtime \<Rightarrow> task \<Rightarrow> string list" where
  "validationErrors rt doc =
     (if titleValid (title doc) then [] else [''title''])
     @ (if length (description doc) \<le> 1000 then [] else [''description''])
     @ (if dueDateValid rt (dueDate doc) then [] else [''dueDate''])
     @ (if tagsValid (tags doc) then [] else [''tags''])
     @ (if list_all commentValid (comments doc) then [] else [''comments''])"

text \<open>\<^verbatim>\<open>this.isModified()\<close> of a document read from the database.\<close>

definition isModified :: "task \<Rightarrow> task \<Rightarrow> bool" where
  "isModified stored doc = (doc \<noteq> stored)"

text \<open>
  The pre-save middleware, \<^verbatim>\<open>if (this.isModified() && !this.isNew)\<close>: the version is
  incremented and \<^verbatim>\<open>lastModified\<close> set. \<open>stored\<close> is \<open>None\<close> for a new document.
\<close>

definition preSave :: "runtime \<Rightarrow> task option \<Rightarrow> task \<Rightarrow> task" where
  "preSave rt stored doc =
     (case stored of
        None \<Rightarrow> doc
      | Some s \<Rightarrow>
          if isModified s doc
          then doc\<lparr>version := plusOne (version doc), lastModified := clock rt\<rparr>
          else doc)"

text \<open>
  The timestamps of \<^verbatim>\<open>timestamps: true\<close> on a save of \<open>doc\<close>, applied to \<open>d\<close>:
  \<^verbatim>\<open>updatedAt\<close> is set when the document is new or modified.
\<close>

definition timestamps :: "runtime \<Rightarrow> task option \<Rightarrow> task \<Rightarrow> task \<Rightarrow> task" where
  "timestamps rt stored doc d =
     (case stored of
        None \<Rightarrow> d\<lparr>createdAt := clock rt, updatedAt := clock rt\<rparr>
      | Some s \<Rightarrow> if isModified s doc then d\<lparr>updatedAt := clock rt\<rparr> else d)"

text \<open>
  \<^verbatim>\<open>document.save()\<close>: validation, then the middleware, then the write (the \<^verbatim>\<open>_id\<close> index
  keeps ids unique, so the write replaces the document of that id). The result is the
  failing paths of a \<^verbatim>\<open>ValidationError\<close>, or the saved document and the new database.
\<close>

definition save :: "runtime \<Rightarrow> task option \<Rightarrow> task \<Rightarrow> db \<Rightarrow> string list + task \<times> db" where
  "save rt stored doc st =
     (if validationErrors rt doc \<noteq> [] then Inl (validationErrors rt doc)
      else
        let d = timestamps rt stored doc (preSave rt stored doc) in
        (case stored of
           None \<Rightarrow> Inr (d, st\<lparr>tasks := tasks st @ [d]\<rparr>)
         | Some s \<Rightarrow>
             Inr (d, st\<lparr>tasks := map (\<lambda>t. if taskId t = taskId d then d else t) (tasks st)\<rparr>)))"

text \<open>
  \<^verbatim>\<open>Task.validateUniqueTitle(title, excludeId)\<close>. The pattern is built from the title as it
  is; \<open>None\<close> is the \<^verbatim>\<open>SyntaxError\<close> of a title that is no pattern.
\<close>

definition validateUniqueTitle ::
  "runtime \<Rightarrow> string \<Rightarrow> objectId option \<Rightarrow> db \<Rightarrow> bool option" where
  "validateUniqueTitle rt ttl excludeId st =
     (case regExp rt (''^'' @ ttl @ ''$'') of
        None \<Rightarrow> None
      | Some test \<Rightarrow>
          Some (find (\<lambda>t. test (title t) \<and> \<not> isArchived t
                          \<and> (case excludeId of None \<Rightarrow> True | Some i \<Rightarrow> taskId t \<noteq> i))
                  (tasks st) = None))"

text \<open>\<^verbatim>\<open>countDocuments\<close> of the Smart-Assign query for one user.\<close>

definition countDocuments :: "user \<Rightarrow> task list \<Rightarrow> nat" where
  "countDocuments u ts =
     length (filter (\<lambda>t. assignedTo t = Some (userId u)
                          \<and> (status t = Todo \<or> status t = InProgress)
                          \<and> \<not> isArchived t) ts)"

text \<open>\<^verbatim>\<open>Math.min(...xs)\<close>; \<open>None\<close> is the \<^verbatim>\<open>Infinity\<close> of no argument.\<close>

fun mathMin :: "nat list \<Rightarrow> nat option" where
  "mathMin [] = None"
| "mathMin (x # xs) = Some (fold min xs x)"

definition userTaskCounts :: "db \<Rightarrow> (user \<times> nat) list" where
  "userTaskCounts st = map (\<lambda>u. (u, countDocuments u (tasks st))) (findActiveUsers st)"

definition usersWithMinTasks :: "db \<Rightarrow> (user \<times> nat) list" where
  "usersWithMinTasks st =
     filter (\<lambda>utc. Some (snd utc) = mathMin (map snd (userTaskCounts st))) (userTaskCounts st)"

text \<open>\<^verbatim>\<open>Math.floor(Math.random() * usersWithMinTasks.length)\<close>.\<close>

definition randomIndex :: "real \<Rightarrow> nat \<Rightarrow> nat" where
  "randomIndex r n = nat \<lfloor>r * real n\<rfloor>"

text \<open>
  \<^verbatim>\<open>Task.findUserWithFewestTasks()\<close>. The left results are the errors it throws: the
  explicit one for no active user, and the \<^verbatim>\<open>TypeError\<close> of reading \<^verbatim>\<open>.user\<close> of an index
  out of range.
\<close>

definition findUserWithFewestTasks :: "runtime \<Rightarrow> db \<Rightarrow> string + user" where
  "findUserWithFewestTasks rt st =
     (if length (findActiveUsers st) = 0 then Inl ''No active users found''
      else
        let i = randomIndex (mathRandom rt) (length (usersWithMinTasks st)) in
        if i < length (usersWithMinTasks st) \<and> 0 \<le> mathRandom rt
        then Inr (fst (usersWithMinTasks st ! i))
        else Inl ''TypeError'')"

definition hasConflict :: "task \<Rightarrow> int \<Rightarrow> bool" where
  "hasConflict t clientVersion = (clientVersion < version t)"

text \<open>\<^verbatim>\<open>task.addComment(text, authorId)\<close> and \<^verbatim>\<open>task.archive(userId)\<close>, before their save.\<close>

definition pushComment :: "runtime \<Rightarrow> string \<Rightarrow> objectId \<Rightarrow> task \<Rightarrow> task" where
  "pushComment rt txt authorId t =
     t\<lparr>comments := comments t
          @ [\<lparr>commentText = txt, author = authorId, commentCreatedAt = clock rt\<rparr>]\<rparr>"

definition archive :: "runtime \<Rightarrow> objectId \<Rightarrow> task \<Rightarrow> task" where
  "archive rt uid t =
     t\<lparr>isArchived := True, archivedAt := Some (clock rt), archivedBy := Some uid\<rparr>"

section \<open>Request validation (Joi)\<close>

text \<open>
  Request bodies after JSON parsing. \<^verbatim>\<open>stripUnknown\<close> removes every key a schema does not
  name, so a body has the keys of its schema and no other; strings are taken as already
  trimmed.
\<close>

record create_body =
  c_title :: "string option"
  c_description :: "string option"
  c_status :: "status option"
  c_priority :: "priority option"
  c_assignedTo :: "objectId field"
  c_dueDate :: "date field"
  c_tags :: "string list option"
  c_position :: "int option"

record update_body =
  u_title :: "string option"
  u_description :: "string option"
  u_status :: "status option"
  u_priority :: "priority option"
  u_assignedTo :: "objectId field"
  u_dueDate :: "date field"
  u_tags :: "string list option"
  u_position :: "int option"
  u_version :: "int option"

record move_body =
  m_status :: status
  m_position :: int
  m_version :: "int option"

record assign_body =
  a_assignedTo :: "objectId option"
  a_version :: "int option"

definition joiTitle :: "string \<Rightarrow> bool" where
  "joiTitle s = (1 \<le> length s \<and> length s \<le> 200 \<and> toLowerCase s \<notin> set columnNames)"

text \<open>\<^verbatim>\<open>Joi.string()\<close> refuses the empty string, so a tag has 1 to 50 characters.\<close>

definition joiTags :: "string list \<Rightarrow> bool" where
  "joiTags ts = (list_all (\<lambda>s. 1 \<le> length s \<and> length s \<le> 50) ts \<and> length ts \<le> 10)"

text \<open>\<^verbatim>\<open>Joi.number().integer().min(n)\<close>: a safe integer, at least \<open>n\<close>.\<close>

definition joiInteger :: "int \<Rightarrow> int \<Rightarrow> bool" where
  "joiInteger n x = (isSafeInteger x \<and> n \<le> x)"

definition joiDueDate :: "runtime \<Rightarrow> date field \<Rightarrow> bool" where
  "joiDueDate rt d = (case d of Value x \<Rightarrow> clock rt \<le> x | _ \<Rightarrow> True)"

text \<open>Each schema gives the failing keys and the value with the schema's defaults.\<close>

definition taskSchemas_create :: "runtime \<Rightarrow> create_body \<Rightarrow> string list \<times> create_body" where
  "taskSchemas_create rt b =
     ((case c_title b of None \<Rightarrow> [''title''] | Some s \<Rightarrow> if joiTitle s then [] else [''title''])
      @ (case c_description b of None \<Rightarrow> []
         | Some s \<Rightarrow> if length s \<le> 1000 then [] else [''description''])
      @ (if joiDueDate rt (c_dueDate b) then [] else [''dueDate''])
      @ (case c_tags b of None \<Rightarrow> [] | Some ts \<Rightarrow> if joiTags ts then [] else [''tags''])
      @ (case c_position b of None \<Rightarrow> [] | Some p \<Rightarrow> if joiInteger 0 p then [] else [''position'']),
      b\<lparr>c_status := Some (case c_status b of None \<Rightarrow> Todo | Some x \<Rightarrow> x),
        c_priority := Some (case c_priority b of None \<Rightarrow> Medium | Some x \<Rightarrow> x),
        c_tags := Some (case c_tags b of None \<Rightarrow> [] | Some x \<Rightarrow> x),
        c_position := Some (case c_position b of None \<Rightarrow> 0 | Some x \<Rightarrow> x)\<rparr>)"

definition taskSchemas_update :: "runtime \<Rightarrow> update_body \<Rightarrow> string list \<times> update_body" where
  "taskSchemas_update rt b =
     ((case u_title b of None \<Rightarrow> [] | Some s \<Rightarrow> if joiTitle s then [] else [''title''])
      @ (case u_description b of None \<Rightarrow> []
         | Some s \<Rightarrow> if length s \<le> 1000 then [] else [''description''])
      @ (if joiDueDate rt (u_dueDate b) then [] else [''dueDate''])
      @ (case u_tags b of None \<Rightarrow> [] | Some ts \<Rightarrow> if joiTags ts then [] else [''tags''])
      @ (case u_position b of None \<Rightarrow> [] | Some p \<Rightarrow> if joiInteger 0 p then [] else [''position''])
      @ (case u_version b of None \<Rightarrow> [] | Some v \<Rightarrow> if joiInteger 1 v then [] else [''version'']),
      b)"

definition taskSchemas_move :: "move_body \<Rightarrow> string list \<times> move_body" where
  "taskSchemas_move b =
     ((if joiInteger 0 (m_position b) then [] else [''position''])
      @ (case m_version b of None \<Rightarrow> [''version'']
         | Some v \<Rightarrow> if joiInteger 1 v then [] else [''version'']),
      b)"

definition taskSchemas_assign :: "assign_body \<Rightarrow> string list \<times> assign_body" where
  "taskSchemas_assign b =
     ((case a_assignedTo b of None \<Rightarrow> [''assignedTo''] | Some x \<Rightarrow> [])
      @ (case a_version b of None \<Rightarrow> [''version'']
         | Some v \<Rightarrow> if joiInteger 1 v then [] else [''version'']),
      b)"

definition taskSchemas_comment :: "string \<Rightarrow> string list \<times> string" where
  "taskSchemas_comment txt =
     (if 1 \<le> length txt \<and> length txt \<le> 500 then [] else [''text''], txt)"

definition validationError :: "string list \<Rightarrow> response" where
  "validationError errs =
     Response 400 [(''message'', JStr ''Validation error''), (''errors'', JArr (map JStr errs))]"

text \<open>The middleware \<^verbatim>\<open>validate(schema)\<close>: a 400 response, or the value for the controller.\<close>

definition validate :: "('b \<Rightarrow> string list \<times> 'b) \<Rightarrow> 'b \<Rightarrow> response + 'b" where
  "validate schema b =
     (if fst (schema b) \<noteq> [] then Inl (validationError (fst (schema b)))
      else Inr (snd (schema b)))"

section \<open>The task controller\<close>


definition jsNum :: "int option \<Rightarrow> jsval" where
  "jsNum v = (case v of None \<Rightarrow> JUndefined | Some n \<Rightarrow> JNum n)"

text \<open>
  The object literal the controllers pass to \<^verbatim>\<open>Activity.logActivity\<close>: the actor, the
  address and the user agent come from the request, the category is \<^verbatim>\<open>'task'\<close>;
  \<^verbatim>\<open>isResolved\<close> defaults to true and \<^verbatim>\<open>conflictId\<close> is unset.
\<close>

definition taskActivity ::
  "request \<Rightarrow> action \<Rightarrow> objectId option \<Rightarrow> (string \<times> string) list \<Rightarrow> string
     \<Rightarrow> (string \<times> jsval) list \<Rightarrow> activity" where
  "taskActivity req act tgt ds sev dets =
     \<lparr>action = act, actor = userId (reqUser req), target = tgt,
      targetModel = (case tgt of None \<Rightarrow> None | Some x \<Rightarrow> Some ''Task''),
      details = dets,
      activityDescription = createDescription act (fullName (reqUser req)) ds,
      ipAddress = ip req, userAgent = userAgentHeader req,
      category = ''task'', severity = sev, conflictId = None, isResolved = True\<rparr>"

definition notFound :: response where
  "notFound = Response 404 [(''message'', JStr ''Task not found'')]"

text \<open>The 409 response of \<^verbatim>\<open>moveTask\<close>, \<^verbatim>\<open>smartAssignTask\<close> and \<^verbatim>\<open>assignTask\<close>.\<close>

definition conflictResponse :: "int option \<Rightarrow> task \<Rightarrow> response" where
  "conflictResponse clientVersion t =
     Response 409
       [(''message'', JStr ''Conflict detected: Task has been modified by another user''),
        (''conflict'', JObj [(''clientVersion'', jsNum clientVersion),
                            (''serverVersion'', JNum (version t)),
                            (''serverTask'', JTask t)])]"

text \<open>\<^verbatim>\<open>new Task(taskData)\<close> in \<^verbatim>\<open>createTask\<close>, with the defaults of the schema.\<close>

definition newTask :: "runtime \<Rightarrow> request \<Rightarrow> create_body \<Rightarrow> task" where
  "newTask rt req b =
     \<lparr>taskId = newObjectId rt,
      title = (case c_title b of None \<Rightarrow> [] | Some s \<Rightarrow> s),
      description = (case c_description b of None \<Rightarrow> [] | Some s \<Rightarrow> s),
      status = (case c_status b of None \<Rightarrow> Todo | Some x \<Rightarrow> x),
      priority = (case c_priority b of None \<Rightarrow> Medium | Some x \<Rightarrow> x),
      assignedTo = (case c_assignedTo b of Value a \<Rightarrow> Some a | _ \<Rightarrow> None),
      createdBy = userId (reqUser req),
      dueDate = (case c_dueDate b of Value d \<Rightarrow> Some d | _ \<Rightarrow> None),
      tags = (case c_tags b of None \<Rightarrow> [] | Some x \<Rightarrow> x),
      position = (case c_position b of None \<Rightarrow> 0 | Some p \<Rightarrow> p),
      version = 1,
      lastModified = clock rt,
      lastModifiedBy = Some (userId (reqUser req)),
      comments = [],
      isArchived = False,
      archivedAt = None,
      archivedBy = None,
      createdAt = clock rt,
      updatedAt = clock rt\<rparr>"

text \<open>The check of an assignee: the user exists and is active.\<close>

definition activeUser :: "objectId \<Rightarrow> db \<Rightarrow> bool" where
  "activeUser a st = (case findUserById a (users st) of None \<Rightarrow> False | Some u \<Rightarrow> isActive u)"

definition createTask :: "runtime \<Rightarrow> request \<Rightarrow> create_body \<Rightarrow> db \<Rightarrow> response \<times> db" where
  "createTask rt req b st =
     (case validateUniqueTitle rt (case c_title b of None \<Rightarrow> ''undefined'' | Some s \<Rightarrow> s)
             None st of
        None \<Rightarrow> (Response 500 [(''message'', JStr ''Error creating task'')], st)
      | Some isUnique \<Rightarrow>
      if \<not> isUnique
      then (Response 400 [(''message'', JStr ''A task with this title already exists'')], st)
      else if (case c_assignedTo b of Value a \<Rightarrow> \<not> activeUser a st | _ \<Rightarrow> False)
      then (Response 400 [(''message'', JStr ''Assigned user not found or inactive'')], st)
      else
        (case save rt None (newTask rt req b) st of
           Inl errs \<Rightarrow> (validationError errs, st)
         | Inr (t, st1) \<Rightarrow>
             (Response 201 [(''message'', JStr ''Task created successfully''), (''task'', JTask t)],
              logActivity rt
                (taskActivity req task_created (Some (taskId t)) [(''taskTitle'', title t)]
                   ''low'' [])
                st1)))"

text \<open>\<^verbatim>\<open>clientVersion && task.hasConflict(clientVersion)\<close>.\<close>

definition conflictCheck :: "int option \<Rightarrow> task \<Rightarrow> bool" where
  "conflictCheck clientVersion t =
     (case clientVersion of None \<Rightarrow> False | Some v \<Rightarrow> v \<noteq> 0 \<and> hasConflict t v)"

text \<open>\<^verbatim>\<open>Object.assign(task, updateData)\<close>: every key of the body is written to the task.\<close>

definition objectAssign :: "update_body \<Rightarrow> task \<Rightarrow> task" where
  "objectAssign b t =
     t\<lparr>title := (case u_title b of None \<Rightarrow> title t | Some x \<Rightarrow> x),
       description := (case u_description b of None \<Rightarrow> description t | Some x \<Rightarrow> x),
       status := (case u_status b of None \<Rightarrow> status t | Some x \<Rightarrow> x),
       priority := (case u_priority b of None \<Rightarrow> priority t | Some x \<Rightarrow> x),
       assignedTo :=
         (case u_assignedTo b of Absent \<Rightarrow> assignedTo t | Null \<Rightarrow> None | Value a \<Rightarrow> Some a),
       dueDate := (case u_dueDate b of Absent \<Rightarrow> dueDate t | Null \<Rightarrow> None | Value d \<Rightarrow> Some d),
       tags := (case u_tags b of None \<Rightarrow> tags t | Some x \<Rightarrow> x),
       position := (case u_position b of None \<Rightarrow> position t | Some x \<Rightarrow> x),
       version := (case u_version b of None \<Rightarrow> version t | Some x \<Rightarrow> x)\<rparr>"

text \<open>The fields \<^verbatim>\<open>updateTask\<close> logs as previous and current values.\<close>

definition loggedValues :: "task \<Rightarrow> jsval" where
  "loggedValues t =
     JObj [(''title'', JStr (title t)), (''description'', JStr (description t)),
           (''status'', JStatus (status t)), (''priority'', JPriority (priority t)),
           (''assignedTo'', JRef (assignedTo t)), (''dueDate'', JDate (dueDate t)),
           (''tags'', JArr (map JStr (tags t)))]"

text \<open>
  The title check of \<^verbatim>\<open>updateTask\<close>,
  \<^verbatim>\<open>if (updateData.title && updateData.title !== task.title)\<close>: the uniqueness query runs
  only for a new, non-empty title; \<open>None\<close> is its \<^verbatim>\<open>SyntaxError\<close>.
\<close>

definition titleCheck ::
  "runtime \<Rightarrow> objectId \<Rightarrow> string option \<Rightarrow> task \<Rightarrow> db \<Rightarrow> bool option" where
  "titleCheck rt i ttl t st =
     (case ttl of
        None \<Rightarrow> Some True
      | Some s \<Rightarrow>
          if s \<noteq> [] \<and> s \<noteq> title t then validateUniqueTitle rt s (Some i) st else Some True)"

text \<open>
  \<^verbatim>\<open>updateTask\<close>. The task is read unpopulated, so \<^verbatim>\<open>task.lastModifiedBy?.fullName\<close> is
  undefined and the other user of the conflict description is \<^verbatim>\<open>'Unknown'\<close>.
\<close>

definition updateTask ::
  "runtime \<Rightarrow> request \<Rightarrow> objectId \<Rightarrow> update_body \<Rightarrow> db \<Rightarrow> response \<times> db" where
  "updateTask rt req i b st =
     (case findById i (tasks st) of
        None \<Rightarrow> (notFound, st)
      | Some t \<Rightarrow>
          if isArchived t then (notFound, st)
          else if conflictCheck (u_version b) t then
            (Response 409
               [(''message'', JStr ''Conflict detected: Task has been modified by another user''),
                (''conflict'', JObj [(''clientVersion'', jsNum (u_version b)),
                                    (''serverVersion'', JNum (version t)),
                                    (''serverTask'', JTask t),
                                    (''lastModifiedBy'', JRef (lastModifiedBy t))])],
             logActivity rt
               ((taskActivity req conflict_detected (Some (taskId t))
                   [(''taskTitle'', title t), (''otherUser'', ''Unknown'')] ''medium''
                   [(''clientVersion'', jsNum (u_version b)),
                    (''serverVersion'', JNum (version t)),
                    (''conflictType'', JStr ''version_mismatch'')])
                \<lparr>conflictId := Some (randomUUID rt), isResolved := False\<rparr>)
               st)
          else
          (case titleCheck rt i (u_title b) t st of
             None \<Rightarrow> (Response 500 [(''message'', JStr ''Error updating task'')], st)
           | Some isUnique \<Rightarrow>
          if \<not> isUnique
          then (Response 400 [(''message'', JStr ''A task with this title already exists'')], st)
          else if (case u_assignedTo b of Value a \<Rightarrow> Some a \<noteq> assignedTo t \<and> \<not> activeUser a st
                   | _ \<Rightarrow> False)
          then (Response 400 [(''message'', JStr ''Assigned user not found or inactive'')], st)
          else
            (case save rt (Some t)
                    ((objectAssign b t)
                       \<lparr>lastModified := clock rt, lastModifiedBy := Some (userId (reqUser req))\<rparr>)
                    st of
               Inl errs \<Rightarrow> (validationError errs, st)
             | Inr (t', st1) \<Rightarrow>
                 (Response 200
                    [(''message'', JStr ''Task updated successfully''), (''task'', JTask t')],
                  logActivity rt
                    (taskActivity req task_updated (Some (taskId t')) [(''taskTitle'', title t')]
                       ''low'' [(''previous'', loggedValues t), (''current'', loggedValues t')])
                    st1))))"

text \<open>
  \<^verbatim>\<open>Task.updateMany(filter, update)\<close>: no document middleware runs, so no version is
  incremented; the timestamps option sets \<^verbatim>\<open>updatedAt\<close> on the matched documents. The
  \<^verbatim>\<open>$inc\<close> of \<^verbatim>\<open>moveTask\<close> adds 1 to the stored number, which is exact on safe integers
  whatever type stores them; beyond them the model follows the double.
\<close>

definition updateMany :: "runtime \<Rightarrow> (task \<Rightarrow> bool) \<Rightarrow> (task \<Rightarrow> task) \<Rightarrow> db \<Rightarrow> db" where
  "updateMany rt flt upd st =
     st\<lparr>tasks := map (\<lambda>t. if flt t then (upd t)\<lparr>updatedAt := clock rt\<rparr> else t) (tasks st)\<rparr>"

definition moveTask ::
  "runtime \<Rightarrow> request \<Rightarrow> objectId \<Rightarrow> move_body \<Rightarrow> db \<Rightarrow> response \<times> db" where
  "moveTask rt req i b st =
     (case findById i (tasks st) of
        None \<Rightarrow> (notFound, st)
      | Some t \<Rightarrow>
          if isArchived t then (notFound, st)
          else if conflictCheck (m_version b) t then (conflictResponse (m_version b) t, st)
          else
            (case save rt (Some t)
                    (t\<lparr>status := m_status b, position := m_position b,
                       lastModifiedBy := Some (userId (reqUser req))\<rparr>)
                    st of
               Inl errs \<Rightarrow> (Response 500 [(''message'', JStr ''Error moving task'')], st)
             | Inr (t', st1) \<Rightarrow>
                 (Response 200
                    [(''message'', JStr ''Task moved successfully''), (''task'', JTask t')],
                  logActivity rt
                    (taskActivity req task_moved (Some (taskId t'))
                       [(''taskTitle'', title t'), (''fromStatus'', statusName (status t)),
                        (''toStatus'', statusName (m_status b))]
                       ''low''
                       [(''previous'', JObj [(''status'', JStatus (status t)),
                                            (''position'', JNum (position t))]),
                        (''current'', JObj [(''status'', JStatus (m_status b)),
                                           (''position'', JNum (m_position b))])])
                    (updateMany rt
                       (\<lambda>x. taskId x \<noteq> i \<and> status x = m_status b \<and> m_position b \<le> position x
                             \<and> \<not> isArchived x)
                       (\<lambda>x. x\<lparr>position := plusOne (position x)\<rparr>)
                       st1))))"

definition smartAssignTask ::
  "runtime \<Rightarrow> request \<Rightarrow> objectId \<Rightarrow> int option \<Rightarrow> db \<Rightarrow> response \<times> db" where
  "smartAssignTask rt req i clientVersion st =
     (case findById i (tasks st) of
        None \<Rightarrow> (notFound, st)
      | Some t \<Rightarrow>
          if isArchived t then (notFound, st)
          else if conflictCheck clientVersion t then (conflictResponse clientVersion t, st)
          else
            (case findUserWithFewestTasks rt st of
               Inl err \<Rightarrow> (Response 500 [(''message'', JStr ''Error in smart assign'')], st)
             | Inr selectedUser \<Rightarrow>
                 (case save rt (Some t)
                         (t\<lparr>assignedTo := Some (userId selectedUser),
                            lastModifiedBy := Some (userId (reqUser req))\<rparr>)
                         st of
                    Inl errs \<Rightarrow> (Response 500 [(''message'', JStr ''Error in smart assign'')], st)
                  | Inr (t', st1) \<Rightarrow>
                      (Response 200
                         [(''message'', JStr ''Task assigned successfully using smart assign''),
                          (''task'', JTask t'), (''assignedTo'', JUser selectedUser)],
                       logActivity rt
                         (taskActivity req smart_assign (Some (taskId t'))
                            [(''taskTitle'', title t'), (''assigneeName'', fullName selectedUser)]
                            ''low''
                            [(''previous'', JObj [(''assignedTo'', JRef (assignedTo t))]),
                             (''current'', JObj [(''assignedTo'', JRef (Some (userId selectedUser)))]),
                             (''algorithm'', JStr ''fewest_active_tasks'')])
                         st1))))"

definition assignTask ::
  "runtime \<Rightarrow> request \<Rightarrow> objectId \<Rightarrow> assign_body \<Rightarrow> db \<Rightarrow> response \<times> db" where
  "assignTask rt req i b st =
     (case findById i (tasks st) of
        None \<Rightarrow> (notFound, st)
      | Some t \<Rightarrow>
          if isArchived t then (notFound, st)
          else if conflictCheck (a_version b) t then (conflictResponse (a_version b) t, st)
          else
            (case (case a_assignedTo b of None \<Rightarrow> None | Some a \<Rightarrow> findUserById a (users st)) of
               None \<Rightarrow> (Response 400 [(''message'', JStr ''Assigned user not found or inactive'')], st)
             | Some assignedUser \<Rightarrow>
                 if \<not> isActive assignedUser
                 then (Response 400 [(''message'', JStr ''Assigned user not found or inactive'')], st)
                 else
                   (case save rt (Some t)
                           (t\<lparr>assignedTo := a_assignedTo b,
                              lastModifiedBy := Some (userId (reqUser req))\<rparr>)
                           st of
                      Inl errs \<Rightarrow> (Response 500 [(''message'', JStr ''Error assigning task'')], st)
                    | Inr (t', st1) \<Rightarrow>
                        (Response 200
                           [(''message'', JStr ''Task assigned successfully''), (''task'', JTask t')],
                         logActivity rt
                           (taskActivity req task_assigned (Some (taskId t'))
                              [(''taskTitle'', title t'), (''assigneeName'', fullName assignedUser)]
                              ''low''
                              [(''previous'', JObj [(''assignedTo'', JRef (assignedTo t))]),
                               (''current'', JObj [(''assignedTo'', JRef (a_assignedTo b))])])
                           st1))))"

definition addComment ::
  "runtime \<Rightarrow> request \<Rightarrow> objectId \<Rightarrow> string \<Rightarrow> db \<Rightarrow> response \<times> db" where
  "addComment rt req i txt st =
     (case findById i (tasks st) of
        None \<Rightarrow> (notFound, st)
      | Some t \<Rightarrow>
          if isArchived t then (notFound, st)
          else
            (case save rt (Some t) (pushComment rt txt (userId (reqUser req)) t) st of
               Inl errs \<Rightarrow> (Response 500 [(''message'', JStr ''Error adding comment'')], st)
             | Inr (t', st1) \<Rightarrow>
                 (Response 200
                    [(''message'', JStr ''Comment added successfully''), (''task'', JTask t')],
                  logActivity rt
                    (taskActivity req task_commented (Some (taskId t')) [(''taskTitle'', title t')]
                       ''low''
                       [(''commentText'',
                         JStr (take 100 txt @ (if 100 < length txt then ''...'' else [])))])
                    st1)))"

definition deleteTask :: "runtime \<Rightarrow> request \<Rightarrow> objectId \<Rightarrow> db \<Rightarrow> response \<times> db" where
  "deleteTask rt req i st =
     (case findById i (tasks st) of
        None \<Rightarrow> (notFound, st)
      | Some t \<Rightarrow>
          if isArchived t then (notFound, st)
          else if createdBy t \<noteq> userId (reqUser req) \<and> role (reqUser req) \<noteq> ''admin''
          then (Response 403 [(''message'', JStr ''You can only delete tasks you created'')], st)
          else
            (Response 200 [(''message'', JStr ''Task deleted successfully'')],
             logActivity rt
               (taskActivity req task_deleted None [(''taskTitle'', title t)] ''medium''
                  [(''deletedTask'', JObj [(''id'', JRef (Some (taskId t))),
                                          (''title'', JStr (title t)),
                                          (''status'', JStatus (status t)),
                                          (''priority'', JPriority (priority t))])])
               (st\<lparr>tasks := filter (\<lambda>x. taskId x \<noteq> i) (tasks st)\<rparr>)))"

definition archiveTask :: "runtime \<Rightarrow> request \<Rightarrow> objectId \<Rightarrow> db \<Rightarrow> response \<times> db" where
  "archiveTask rt req i st =
     (case findById i (tasks st) of
        None \<Rightarrow> (notFound, st)
      | Some t \<Rightarrow>
          if isArchived t then (notFound, st)
          else
            (case save rt (Some t) (archive rt (userId (reqUser req)) t) st of
               Inl errs \<Rightarrow> (Response 500 [(''message'', JStr ''Error archiving task'')], st)
             | Inr (t', st1) \<Rightarrow>
                 (Response 200 [(''message'', JStr ''Task archived successfully'')],
                  logActivity rt
                    (taskActivity req task_archived (Some (taskId t')) [(''taskTitle'', title t')]
                       ''low'' [])
                    st1)))"

section \<open>The routes\<close>

text \<open>
  Each route runs its validation middleware before the controller
  (\<^verbatim>\<open>router.put('/:id', validateObjectId(), validateTaskUpdate, taskController.updateTask)\<close>);
  the smart-assign, delete and archive routes have none. The middleware \<^verbatim>\<open>authenticate\<close>,
  which puts the user of the token into the request, and the check of the id's format come
  before and are taken as passed.
\<close>

definition postTask :: "runtime \<Rightarrow> request \<Rightarrow> create_body \<Rightarrow> db \<Rightarrow> response \<times> db" where
  "postTask rt req b st =
     (case validate (taskSchemas_create rt) b of
        Inl r \<Rightarrow> (r, st)
      | Inr v \<Rightarrow> createTask rt req v st)"

definition putTask ::
  "runtime \<Rightarrow> request \<Rightarrow> objectId \<Rightarrow> update_body \<Rightarrow> db \<Rightarrow> response \<times> db" where
  "putTask rt req i b st =
     (case validate (taskSchemas_update rt) b of
        Inl r \<Rightarrow> (r, st)
      | Inr v \<Rightarrow> updateTask rt req i v st)"

definition putMove ::
  "runtime \<Rightarrow> request \<Rightarrow> objectId \<Rightarrow> move_body \<Rightarrow> db \<Rightarrow> response \<times> db" where
  "putMove rt req i b st =
     (case validate taskSchemas_move b of
        Inl r \<Rightarrow> (r, st)
      | Inr v \<Rightarrow> moveTask rt req i v st)"

definition putAssign ::
  "runtime \<Rightarrow> request \<Rightarrow> objectId \<Rightarrow> assign_body \<Rightarrow> db \<Rightarrow> response \<times> db" where
  "putAssign rt req i b st =
     (case validate taskSchemas_assign b of
        Inl r \<Rightarrow> (r, st)
      | Inr v \<Rightarrow> assignTask rt req i v st)"

definition postComment ::
  "runtime \<Rightarrow> request \<Rightarrow> objectId \<Rightarrow> string \<Rightarrow> db \<Rightarrow> response \<times> db" where
  "postComment rt req i txt st =
     (case validate taskSchemas_comment txt of
        Inl r \<Rightarrow> (r, st)
      | Inr v \<Rightarrow> addComment rt req i v st)"

text \<open>The requests of the task router, with \<^verbatim>\<open>req.params.id\<close> and the body.\<close>

datatype taskRequest =
    PostTask create_body
  | PutTask objectId update_body
  | DeleteTask objectId
  | PutMove objectId move_body
  | PutAssign objectId assign_body
  | PostSmartAssign objectId "int option"
  | PostComment objectId string
  | PutArchive objectId

fun paramsId :: "taskRequest \<Rightarrow> objectId option" where
  "paramsId (PostTask b) = None"
| "paramsId (PutTask i b) = Some i"
| "paramsId (DeleteTask i) = Some i"
| "paramsId (PutMove i b) = Some i"
| "paramsId (PutAssign i b) = Some i"
| "paramsId (PostSmartAssign i v) = Some i"
| "paramsId (PostComment i txt) = Some i"
| "paramsId (PutArchive i) = Some i"

fun router :: "runtime \<Rightarrow> request \<Rightarrow> taskRequest \<Rightarrow> db \<Rightarrow> response \<times> db" where
  "router rt req (PostTask b) st = postTask rt req b st"
| "router rt req (PutTask i b) st = putTask rt req i b st"
| "router rt req (DeleteTask i) st = deleteTask rt req i st"
| "router rt req (PutMove i b) st = putMove rt req i b st"
| "router rt req (PutAssign i b) st = putAssign rt req i b st"
| "router rt req (PostSmartAssign i v) st = smartAssignTask rt req i v st"
| "router rt req (PostComment i txt) st = postComment rt req i txt st"
| "router rt req (PutArchive i) st = archiveTask rt req i st"

text \<open>
  A status column: the query \<^verbatim>\<open>{ status, isArchived: false }\<close> of \<^verbatim>\<open>getAllTasks\<close> and
  \<^verbatim>\<open>getTasksByStatus\<close> with its sort \<^verbatim>\<open>{ position: 1, createdAt: -1 }\<close>. The sort is stable:
  tasks equal in both keys stay in the order of the collection.
\<close>

definition column :: "status \<Rightarrow> db \<Rightarrow> task list" where
  "column s st =
     sort_key (\<lambda>t. (position t, - int (createdAt t)))
       (filter (\<lambda>t. status t = s \<and> \<not> isArchived t) (tasks st))"

section \<open>A board for the examples\<close>

text \<open>
  Alice and Bob are members, Carol is an administrator, Dave is deactivated. The runtime
  of the examples knows the patterns \<^verbatim>\<open>^title$\<close> whose title is made of letters, digits and
  spaces, which match the same title without regard to case, and is asked from a local
  address.
\<close>

definition alice :: user where
  "alice = \<lparr>userId = 1, fullName = ''Alice Ames'', role = ''member'', isActive = True\<rparr>"

definition bob :: user where
  "bob = \<lparr>userId = 2, fullName = ''Bob Boyd'', role = ''member'', isActive = True\<rparr>"

definition carol :: user where
  "carol = \<lparr>userId = 3, fullName = ''Carol Cole'', role = ''admin'', isActive = True\<rparr>"

definition dave :: user where
  "dave = \<lparr>userId = 4, fullName = ''Dave Dunn'', role = ''member'', isActive = False\<rparr>"

definition plainPattern :: "string \<Rightarrow> bool" where
  "plainPattern p =
     (take 1 p = ''^'' \<and> drop (length p - 1) p = ''$'' \<and> 2 \<le> length p
      \<and> list_all (\<lambda>c. c \<in> set ''abcdefghijklmnopqrstuvwxyz0123456789 '')
           (toLowerCase (butlast (tl p))))"

definition exampleRuntime :: runtime where
  "exampleRuntime =
     \<lparr>regExp = (\<lambda>p. if plainPattern p
                     then Some (\<lambda>s. toLowerCase (''^'' @ s @ ''$'') = toLowerCase p)
                     else None),
      ipv4Regex = (\<lambda>a. a = ''10.0.0.7''),
      ipv6Regex = (\<lambda>a. False),
      clock = 5000,
      randomUUID = ''3b241101-e2bb-4255-8caf-4136c566a962'',
      mathRandom = 1 / 2,
      newObjectId = 100\<rparr>"

definition requestOf :: "user \<Rightarrow> request" where
  "requestOf u = \<lparr>reqUser = u, ip = ''10.0.0.7'', userAgentHeader = Some ''Mozilla/5.0''\<rparr>"

definition exampleTask :: "objectId \<Rightarrow> string \<Rightarrow> int \<Rightarrow> objectId option \<Rightarrow> task" where
  "exampleTask i ttl pos assignee =
     \<lparr>taskId = i, title = ttl, description = [], status = Todo, priority = Medium,
      assignedTo = assignee, createdBy = 1, dueDate = None, tags = [], position = pos,
      version = 1, lastModified = 1000, lastModifiedBy = Some 1, comments = [],
      isArchived = False, archivedAt = None, archivedBy = None,
      createdAt = 1000, updatedAt = 1000\<rparr>"

definition exampleDb :: db where
  "exampleDb =
     \<lparr>tasks = [exampleTask 11 ''Write tests'' 0 (Some 1),
               exampleTask 12 ''Fix login'' 1 (Some 1),
               exampleTask 13 ''Update docs'' 2 None],
      users = [alice, bob, carol, dave],
      activities = []\<rparr>"

text \<open>The empty body of an update request.\<close>

definition emptyUpdate :: update_body where
  "emptyUpdate = \<lparr>u_title = None, u_description = None, u_status = None, u_priority = None,
     u_assignedTo = Absent, u_dueDate = Absent, u_tags = None, u_position = None,
     u_version = None\<rparr>"

text \<open>The empty body of a create request.\<close>

definition emptyCreate :: create_body where
  "emptyCreate = \<lparr>c_title = None, c_description = None, c_status = None, c_priority = None,
     c_assignedTo = Absent, c_dueDate = Absent, c_tags = None, c_position = None\<rparr>"

text \<open>
  The example board after Alice was deactivated, so that no user is active; and the
  example board after Carol modified every task once, so that every version is 2.
\<close>

definition deactivatedDb :: db where
  "deactivatedDb = exampleDb\<lparr>users := [alice\<lparr>isActive := False\<rparr>, dave]\<rparr>"

definition staleDb :: db where
  "staleDb =
     exampleDb\<lparr>tasks := map (\<lambda>t. t\<lparr>version := 2, lastModifiedBy := Some 3\<rparr>) (tasks exampleDb)\<rparr>"

section \<open>Properties of the model and the controllers\<close>

lemma findById_Some: "findById i ts = Some t \<Longrightarrow> taskId t = i \<and> t \<in> set ts"
  unfolding findById_def by (induction ts) (auto split: if_splits)

lemma findById_replace:
  "findById i ts = Some t \<Longrightarrow> taskId d = i \<Longrightarrow>
   findById i (map (\<lambda>x. if taskId x = i then d else x) ts) = Some d"
  unfolding findById_def by (induction ts) (auto split: if_splits)

lemma findById_distinct:
  "distinct (map taskId ts) \<Longrightarrow> t \<in> set ts \<Longrightarrow> findById (taskId t) ts = Some t"
  unfolding findById_def by (induction ts) auto

lemma findById_map:
  assumes "\<And>x. taskId x = i \<Longrightarrow> g x = t'" "\<And>x. taskId x \<noteq> i \<Longrightarrow> taskId (g x) = taskId x"
    "taskId t' = i"
  shows "findById i ts = Some t \<Longrightarrow> findById i (map g ts) = Some t'"
  unfolding findById_def using assms by (induction ts) (auto split: if_splits)

lemma findById_filter_out: "findById i (filter (\<lambda>x. taskId x \<noteq> i) ts) = None"
  unfolding findById_def by (induction ts) auto

lemma tasks_logActivity: "tasks (logActivity rt a st) = tasks st"
  by (simp add: logActivity_def)

lemma users_logActivity: "users (logActivity rt a st) = users st"
  by (simp add: logActivity_def)

lemma plusOne_safe: "isSafeInteger x \<Longrightarrow> plusOne x = x + 1"
  unfolding plusOne_def isSafeInteger_def by (auto simp: abs_le_iff)

text \<open>The validation reads the title, the description, the due date, the tags and the
  comments, and nothing else.\<close>

lemma validationErrors_same:
  "title doc = title t \<Longrightarrow> description doc = description t \<Longrightarrow> dueDate doc = dueDate t \<Longrightarrow>
   tags doc = tags t \<Longrightarrow> comments doc = comments t \<Longrightarrow>
   validationErrors rt doc = validationErrors rt t"
  by (simp add: validationErrors_def)

lemma save_existing:
  "save rt (Some t) doc st = Inr (d, st1) \<Longrightarrow>
     d = (if doc \<noteq> t
          then doc\<lparr>version := plusOne (version doc), lastModified := clock rt,
                   updatedAt := clock rt\<rparr>
          else doc)
     \<and> st1 = st\<lparr>tasks := map (\<lambda>x. if taskId x = taskId doc then d else x) (tasks st)\<rparr>
     \<and> validationErrors rt doc = []"
  by (auto simp: save_def Let_def timestamps_def preSave_def isModified_def split: if_splits)

lemma save_invalid:
  "validationErrors rt doc \<noteq> [] \<Longrightarrow> save rt stored doc st = Inl (validationErrors rt doc)"
  by (simp add: save_def)

lemma save_existing_ok:
  "validationErrors rt doc = [] \<Longrightarrow> doc \<noteq> t \<Longrightarrow>
   save rt (Some t) doc st =
     Inr (doc\<lparr>version := plusOne (version doc), lastModified := clock rt, updatedAt := clock rt\<rparr>,
          st\<lparr>tasks := map (\<lambda>x. if taskId x = taskId doc
                               then doc\<lparr>version := plusOne (version doc),
                                        lastModified := clock rt, updatedAt := clock rt\<rparr>
                               else x) (tasks st)\<rparr>)"
  by (simp add: save_def Let_def timestamps_def preSave_def isModified_def)

lemma save_existing_same:
  "validationErrors rt t = [] \<Longrightarrow>
   save rt (Some t) t st =
     Inr (t, st\<lparr>tasks := map (\<lambda>x. if taskId x = taskId t then t else x) (tasks st)\<rparr>)"
  by (simp add: save_def Let_def timestamps_def preSave_def isModified_def)



lemma save_target:
  assumes s: "save rt (Some t) doc st = Inr (d, st1)"
    and f: "findById i (tasks st) = Some t" and i: "taskId doc = i"
  shows "findById i (tasks st1) = Some d" "d \<noteq> t \<Longrightarrow> version d = plusOne (version doc)"
    "users st1 = users st"
proof -
  have d: "d = (if doc \<noteq> t
          then doc\<lparr>version := plusOne (version doc), lastModified := clock rt,
                   updatedAt := clock rt\<rparr>
          else doc)"
    and st1: "st1 = st\<lparr>tasks := map (\<lambda>x. if taskId x = taskId doc then d else x) (tasks st)\<rparr>"
    using save_existing[OF s] by blast+
  have "taskId d = i" using d i by (simp split: if_splits)
  then show "findById i (tasks st1) = Some d"
    using findById_replace[OF f, of d] st1 i by simp
  show "d \<noteq> t \<Longrightarrow> version d = plusOne (version doc)" using d by (auto split: if_splits)
  show "users st1 = users st" using st1 by simp
qed

text \<open>What \<^verbatim>\<open>moveTask\<close> does to each stored task when it passes the version check and the
  validation of the save.\<close>

lemma moveTask_tasks:
  assumes "findById i (tasks st) = Some t" "\<not> isArchived t" "\<not> conflictCheck (m_version b) t"
    "validationErrors rt t = []"
  shows "\<exists>t'. save rt (Some t) (t\<lparr>status := m_status b, position := m_position b,
                       lastModifiedBy := Some (userId (reqUser req))\<rparr>) st 
               = Inr (t', st\<lparr>tasks := map (\<lambda>x. if taskId x = i then t' else x) (tasks st)\<rparr>)
           \<and> status t' = m_status b \<and> position t' = m_position b \<and> taskId t' = i \<and> isArchived t' = False
           \<and> statusCode (fst (moveTask rt req i b st)) = 200
           \<and> tasks (snd (moveTask rt req i b st)) =
               map (\<lambda>x. if taskId x = i then t'
                         else if status x = m_status b \<and> m_position b \<le> position x \<and> \<not> isArchived x
                         then x\<lparr>position := plusOne (position x), updatedAt := clock rt\<rparr> else x) (tasks st)"
proof -
  let ?doc = "t\<lparr>status := m_status b, position := m_position b,
                       lastModifiedBy := Some (userId (reqUser req))\<rparr>"
  have id: "taskId t = i" using assms(1) by (simp add: findById_Some)
  have v: "validationErrors rt ?doc = []"
    using assms(4) validationErrors_same[of ?doc t rt] by simp
  obtain t' where s: "save rt (Some t) ?doc st = Inr (t', st\<lparr>tasks := map (\<lambda>x. if taskId x = i then t' else x) (tasks st)\<rparr>)"
     and p: "status t' = m_status b" "position t' = m_position b" "taskId t' = i" "isArchived t' = False"
  proof (cases "?doc = t")
    case True
    have "status t = m_status b" "position t = m_position b"
      using arg_cong[OF True, of status] arg_cong[OF True, of position] by simp_all
    then show ?thesis using that[of t] save_existing_same[OF assms(4), of st] id assms(2) True
      by simp
  next
    case False
    then show ?thesis using that save_existing_ok[OF v False, of st] id assms(2) by simp
  qed
  show ?thesis using s p assms(1,2,3)
    by (auto simp: moveTask_def updateMany_def tasks_logActivity intro!: exI[of _ t'])
qed

lemma moveTask_200:
  "statusCode (fst (moveTask rt req i b st)) = 200 \<Longrightarrow>
   \<exists>t. findById i (tasks st) = Some t \<and> \<not> isArchived t \<and> \<not> conflictCheck (m_version b) t
       \<and> validationErrors rt t = []"
proof (cases "findById i (tasks st)")
  case None
  assume "statusCode (fst (moveTask rt req i b st)) = 200"
  then show ?thesis using None by (simp add: moveTask_def notFound_def)
next
  case (Some t)
  assume ok: "statusCode (fst (moveTask rt req i b st)) = 200"
  let ?doc = "t\<lparr>status := m_status b, position := m_position b,
                       lastModifiedBy := Some (userId (reqUser req))\<rparr>"
  have na: "\<not> isArchived t" using ok Some by (auto simp: moveTask_def notFound_def)
  have nc: "\<not> conflictCheck (m_version b) t"
    using ok Some na by (auto simp: moveTask_def conflictResponse_def)
  have "validationErrors rt ?doc = []"
  proof (rule ccontr)
    assume "validationErrors rt ?doc \<noteq> []"
    from save_invalid[OF this, of "Some t" st] show False
      using ok Some na nc by (simp add: moveTask_def)
  qed
  then have "validationErrors rt t = []" using validationErrors_same[of ?doc t rt] by simp
  then show ?thesis using Some na nc by simp
qed

lemma same_id_same_task:
  "distinct (map taskId ts) \<Longrightarrow> x \<in> set ts \<Longrightarrow> y \<in> set ts \<Longrightarrow> taskId x = taskId y \<Longrightarrow> x = y"
  by (meson distinct_map inj_onD)

subsection \<open>Requests that end in an error\<close>

text \<open>From \<open>2\<^sup>5\<^sup>3\<close> on, adding 1 to a version or a position no longer changes it.\<close>

lemma plusOne_beyond_safe: "plusOne 9007199254740992 = 9007199254740992"
  by (simp add: plusOne_def)

text \<open>
  A stored due date that has passed fails the validation of every save of the task: a
  comment and a move are answered with 500 and change nothing.
\<close>

lemma save_overdue:
  "dueDate doc = Some d \<Longrightarrow> d \<le> clock rt \<Longrightarrow> \<exists>errs. save rt stored doc st = Inl errs"
  by (simp add: save_def validationErrors_def dueDateValid_def)

lemma addComment_overdue:
  assumes f: "findById i (tasks st) = Some t" and na: "\<not> isArchived t"
    and due: "dueDate t = Some d" "d \<le> clock rt"
  shows "addComment rt req i txt st
           = (Response 500 [(''message'', JStr ''Error adding comment'')], st)"
proof -
  have "dueDate (pushComment rt txt (userId (reqUser req)) t) = Some d"
    using due(1) by (simp add: pushComment_def)
  from save_overdue[OF this due(2)]
  obtain errs where "save rt (Some t) (pushComment rt txt (userId (reqUser req)) t) st = Inl errs"
    by blast
  then show ?thesis using f na by (simp add: addComment_def)
qed

lemma moveTask_overdue:
  assumes f: "findById i (tasks st) = Some t" and na: "\<not> isArchived t"
    and nc: "\<not> conflictCheck (m_version b) t"
    and due: "dueDate t = Some d" "d \<le> clock rt"
  shows "moveTask rt req i b st = (Response 500 [(''message'', JStr ''Error moving task'')], st)"
proof -
  have "dueDate (t\<lparr>status := m_status b, position := m_position b,
                    lastModifiedBy := Some (userId (reqUser req))\<rparr>) = Some d"
    using due(1) by simp
  from save_overdue[OF this due(2)]
  obtain errs where "save rt (Some t) (t\<lparr>status := m_status b, position := m_position b,
                    lastModifiedBy := Some (userId (reqUser req))\<rparr>) st = Inl errs"
    by blast
  then show ?thesis using f na nc by (simp add: moveTask_def)
qed

text \<open>A title that is no pattern ends \<^verbatim>\<open>createTask\<close> with 500.\<close>

lemma createTask_bad_pattern:
  "validateUniqueTitle rt (case c_title b of None \<Rightarrow> ''undefined'' | Some s \<Rightarrow> s) None st = None
   \<Longrightarrow> createTask rt req b st = (Response 500 [(''message'', JStr ''Error creating task'')], st)"
  by (simp add: createTask_def)

subsection \<open>Moving the last of three tasks to the front\<close>

text \<open>
  C5, as the code has it. The todo column, read in the order of the column query (by
  position, then newest first), holds exactly T1 at position 0, T2 at position 1 and T3 at
  position 2. T3 passes the validators of its schema (its due date, if any, has not
  passed) and its version is a safe integer. Moving T3 to position 0 of the todo column,
  with a version that passes the check, answers 200 and the column then reads T3 at 0, T1
  at 1 and T2 at 2. Only T3 is saved, so only the version of T3 increases, by exactly one;
  T1 and T2 are renumbered by \<^verbatim>\<open>updateMany\<close> and keep their versions.
\<close>

theorem move_to_front_of_three:
  assumes col: "column Todo st = [t1, t2, t3]"
    and pos: "position t1 = 0" "position t2 = 1" "position t3 = 2"
    and ids: "distinct (map taskId (tasks st))"
    and req: "m_status b = Todo" "m_position b = 0"
    and ver: "\<not> conflictCheck (m_version b) t3"
    and valid: "validationErrors rt t3 = []"
    and safe: "isSafeInteger (version t3)"
  shows "statusCode (fst (moveTask rt req (taskId t3) b st)) = 200
       \<and> column Todo (snd (moveTask rt req (taskId t3) b st)) =
           [t3\<lparr>position := 0, version := version t3 + 1, lastModified := clock rt,
               lastModifiedBy := Some (userId (reqUser req)), updatedAt := clock rt\<rparr>,
            t1\<lparr>position := 1, updatedAt := clock rt\<rparr>,
            t2\<lparr>position := 2, updatedAt := clock rt\<rparr>]
       \<and> map position (column Todo (snd (moveTask rt req (taskId t3) b st))) = [0, 1, 2]
       \<and> map version (column Todo (snd (moveTask rt req (taskId t3) b st))) =
           [version t3 + 1, version t1, version t2]"
proof -
  let ?i = "taskId t3"
  let ?Q = "\<lambda>t. status t = Todo \<and> \<not> isArchived t"
  let ?k = "\<lambda>t. (position t, - int (createdAt t))"
  define xs where "xs = filter ?Q (tasks st)"
  have srt: "sort_key ?k xs = [t1, t2, t3]" using col by (simp add: column_def xs_def)
  then have ms: "mset xs = mset [t1, t2, t3]" by (metis mset_sort)
  then have sx: "set xs = {t1, t2, t3}" using mset_eq_setD[OF ms] by auto
  have mem: "t1 \<in> set (tasks st)" "t2 \<in> set (tasks st)" "t3 \<in> set (tasks st)"
    and st: "status t1 = Todo" "status t2 = Todo" "status t3 = Todo"
    and ar: "\<not> isArchived t1" "\<not> isArchived t2" "\<not> isArchived t3"
    using sx by (auto simp: xs_def)
  have "distinct (map taskId xs)" using ids by (simp add: xs_def distinct_map_filter)
  moreover have "mset (map taskId xs) = mset (map taskId [t1, t2, t3])"
    using ms by (metis mset_map)
  ultimately have "distinct (map taskId [t1, t2, t3])"
    using mset_eq_imp_distinct_iff by blast
  then have ne: "taskId t1 \<noteq> ?i" "taskId t2 \<noteq> ?i" by auto
  have found: "findById ?i (tasks st) = Some t3" using ids mem by (simp add: findById_distinct)
  obtain t' where s: "save rt (Some t3) (t3\<lparr>status := m_status b, position := m_position b,
                       lastModifiedBy := Some (userId (reqUser req))\<rparr>) st 
               = Inr (t', st\<lparr>tasks := map (\<lambda>x. if taskId x = ?i then t' else x) (tasks st)\<rparr>)"
     and code: "statusCode (fst (moveTask rt req ?i b st)) = 200"
     and tk: "tasks (snd (moveTask rt req ?i b st)) =
               map (\<lambda>x. if taskId x = ?i then t'
                         else if status x = m_status b \<and> m_position b \<le> position x \<and> \<not> isArchived x
                         then x\<lparr>position := plusOne (position x), updatedAt := clock rt\<rparr> else x) (tasks st)"
    using moveTask_tasks[OF found ar(3) ver valid, of req] by blast
  have neq: "t3\<lparr>status := m_status b, position := m_position b,
                lastModifiedBy := Some (userId (reqUser req))\<rparr> \<noteq> t3"
  proof
    assume "t3\<lparr>status := m_status b, position := m_position b,
                lastModifiedBy := Some (userId (reqUser req))\<rparr> = t3"
    from arg_cong[OF this, of position] show False using pos req by simp
  qed
  have t': "t' = t3\<lparr>position := 0, version := version t3 + 1, lastModified := clock rt,
               lastModifiedBy := Some (userId (reqUser req)), updatedAt := clock rt\<rparr>"
    using save_existing[OF s] neq req st plusOne_safe[OF safe] by simp
  define g where "g = (\<lambda>x. if taskId x = ?i then t'
                         else if status x = m_status b \<and> m_position b \<le> position x \<and> \<not> isArchived x
                         then x\<lparr>position := plusOne (position x), updatedAt := clock rt\<rparr> else x)"
  have g1: "g t1 = t1\<lparr>position := 1, updatedAt := clock rt\<rparr>"
    using ne(1) pos(1) req st(1) ar(1) by (simp add: g_def plusOne_def)
  have g2: "g t2 = t2\<lparr>position := 2, updatedAt := clock rt\<rparr>"
    using ne(2) pos(2) req st(2) ar(2) by (simp add: g_def plusOne_def)
  have g3: "g t3 = t'" by (simp add: g_def)
  have "filter ?Q (map g (tasks st)) = map g (filter ?Q (tasks st))"
  proof -
    have "\<And>x. x \<in> set (tasks st) \<Longrightarrow> (?Q \<circ> g) x = ?Q x"
    proof -
      fix x assume x: "x \<in> set (tasks st)"
      show "(?Q \<circ> g) x = ?Q x"
      proof (cases "taskId x = ?i")
        case True
        then have "x = t3" using same_id_same_task[OF ids x mem(3)] by simp
        then show ?thesis using t' st ar by (simp add: g_def)
      next
        case False
        then show ?thesis by (simp add: g_def)
      qed
    qed
    then show ?thesis unfolding filter_map by (simp cong: filter_cong)
  qed
  then have c: "column Todo (snd (moveTask rt req ?i b st)) = sort_key ?k (map g xs)"
    using tk by (simp add: column_def g_def xs_def)
  let ?ys = "[t', t1\<lparr>position := 1, updatedAt := clock rt\<rparr>, t2\<lparr>position := 2, updatedAt := clock rt\<rparr>]"
  have "mset (map g xs) = mset (map g [t1, t2, t3])" using ms by (metis mset_map)
  then have m2: "mset (map g xs) = mset ?ys" by (simp add: g1 g2 g3)
  have keys: "map ?k ?ys = [(0, - int (createdAt t')), (1, - int (createdAt t1)), (2, - int (createdAt t2))]"
    using t' by simp
  have srt2: "sorted (map ?k ?ys)" unfolding keys by simp
  have "distinct (map ?k ?ys)" unfolding keys by simp
  then have "inj_on ?k (set ?ys)" using distinct_map by blast
  then have inj: "inj_on ?k (set (map g xs))" using mset_eq_setD[OF m2] by simp
  have "sort_key ?k (map g xs) = ?ys" by (rule sort_key_inj_key_eq[OF m2 inj srt2])
  with c t' code show ?thesis by simp
qed

text \<open>The definitions unfolded to run a request on the example board.\<close>

lemmas eval_defs = putTask_def putMove_def putAssign_def postComment_def postTask_def
  validate_def taskSchemas_update_def taskSchemas_move_def taskSchemas_assign_def
  taskSchemas_comment_def taskSchemas_create_def joiTitle_def joiTags_def joiDueDate_def
  joiInteger_def isSafeInteger_def plusOne_def
  updateTask_def moveTask_def assignTask_def smartAssignTask_def addComment_def
  deleteTask_def archiveTask_def createTask_def titleCheck_def
  exampleDb_def exampleTask_def exampleRuntime_def plainPattern_def requestOf_def
  alice_def bob_def carol_def dave_def
  findById_def findUserById_def activeUser_def conflictCheck_def hasConflict_def
  save_def validationErrors_def titleValid_def dueDateValid_def tagsValid_def commentValid_def
  Let_def timestamps_def preSave_def isModified_def updateMany_def objectAssign_def
  pushComment_def archive_def newTask_def validateUniqueTitle_def
  column_def logActivity_def emptyUpdate_def emptyCreate_def notFound_def conflictResponse_def
  validationError_def toLowerCase_def lowerChar_def columnNames_def

theorem move_to_front_of_three_witness:
  "column Todo exampleDb =
     [exampleTask 11 ''Write tests'' 0 (Some 1), exampleTask 12 ''Fix login'' 1 (Some 1),
      exampleTask 13 ''Update docs'' 2 None]
   \<and> statusCode (fst (moveTask exampleRuntime (requestOf alice) 13
        \<lparr>m_status = Todo, m_position = 0, m_version = Some 1\<rparr> exampleDb)) = 200
   \<and> map taskId (column Todo (snd (moveTask exampleRuntime (requestOf alice) 13
        \<lparr>m_status = Todo, m_position = 0, m_version = Some 1\<rparr> exampleDb))) = [13, 11, 12]
   \<and> map position (column Todo (snd (moveTask exampleRuntime (requestOf alice) 13
        \<lparr>m_status = Todo, m_position = 0, m_version = Some 1\<rparr> exampleDb))) = [0, 1, 2]
   \<and> map version (column Todo (snd (moveTask exampleRuntime (requestOf alice) 13
        \<lparr>m_status = Todo, m_position = 0, m_version = Some 1\<rparr> exampleDb))) = [2, 1, 1]"
proof -
  let ?b = "\<lparr>m_status = Todo, m_position = 0, m_version = Some 1\<rparr>"
  have col: "column Todo exampleDb =
     [exampleTask 11 ''Write tests'' 0 (Some 1), exampleTask 12 ''Fix login'' 1 (Some 1),
      exampleTask 13 ''Update docs'' 2 None]"
    by (simp add: column_def exampleDb_def exampleTask_def)
  have ids: "distinct (map taskId (tasks exampleDb))"
    by (simp add: exampleDb_def exampleTask_def)
  have ver: "\<not> conflictCheck (m_version ?b) (exampleTask 13 ''Update docs'' 2 None)"
    by (simp add: conflictCheck_def hasConflict_def exampleTask_def)
  have pos: "position (exampleTask 11 ''Write tests'' 0 (Some 1)) = 0"
    "position (exampleTask 12 ''Fix login'' 1 (Some 1)) = 1"
    "position (exampleTask 13 ''Update docs'' 2 None) = 2"
    by (simp_all add: exampleTask_def)
  have valid: "validationErrors exampleRuntime (exampleTask 13 ''Update docs'' 2 None) = []"
    by (simp add: validationErrors_def exampleTask_def titleValid_def dueDateValid_def
        tagsValid_def toLowerCase_def lowerChar_def columnNames_def)
  have safe: "isSafeInteger (version (exampleTask 13 ''Update docs'' 2 None))"
    by (simp add: isSafeInteger_def exampleTask_def)
  show ?thesis
    using move_to_front_of_three[OF col pos ids _ _ ver valid safe, of "requestOf alice"] col
    by (simp add: exampleTask_def)
qed

text \<open>
  The claim as the spec states it fails on the example board: after the move the versions
  of T1 and T2 are still 1.
\<close>

theorem move_versions_counterexample:
  "map (\<lambda>x. (taskId x, position x, version x)) (column Todo exampleDb)
     = [(11, 0, 1), (12, 1, 1), (13, 2, 1)]
   \<and> statusCode (fst (putMove exampleRuntime (requestOf alice) 13
        \<lparr>m_status = Todo, m_position = 0, m_version = Some 1\<rparr> exampleDb)) = 200
   \<and> map (\<lambda>x. (taskId x, position x, version x))
       (column Todo (snd (putMove exampleRuntime (requestOf alice) 13
          \<lparr>m_status = Todo, m_position = 0, m_version = Some 1\<rparr> exampleDb)))
     = [(13, 0, 2), (11, 1, 1), (12, 2, 1)]"
  by (simp add: eval_defs)

subsection \<open>Positions after a move\<close>

lemma shifted_positions:
  assumes "\<And>x. taskId x \<noteq> i \<Longrightarrow> taskId (g x) = taskId x \<and> status (g x) = status x \<and> isArchived (g x) = isArchived x"
    and "\<And>x. taskId x \<noteq> i \<Longrightarrow> status x = s \<Longrightarrow> \<not> isArchived x \<Longrightarrow>
           position (g x) = (if p \<le> position x then position x + 1 else position x)"
    and "\<And>x. taskId x = i \<Longrightarrow> taskId (g x) = i"
  shows "map position (filter (\<lambda>x. taskId x \<noteq> i) (filter (\<lambda>t. status t = s \<and> \<not> isArchived t) (map g ts)))
   = map (\<lambda>x. if p \<le> position x then position x + 1 else position x)
       (filter (\<lambda>x. taskId x \<noteq> i) (filter (\<lambda>t. status t = s \<and> \<not> isArchived t) ts))"
proof (induction ts)
  case Nil
  then show ?case by simp
next
  case (Cons x xs)
  show ?case
  proof (cases "taskId x = i")
    case True
    then show ?thesis using Cons assms(3)[of x] by simp
  next
    case False
    then show ?thesis using Cons assms(1)[of x] assms(2)[of x] by simp
  qed
qed

lemma others_untouched:
  assumes "\<And>x. taskId x \<noteq> i \<Longrightarrow> taskId (g x) = taskId x \<and> status (g x) = status x \<and> isArchived (g x) = isArchived x"
    and "\<And>x. taskId x \<noteq> i \<Longrightarrow> status x \<noteq> s \<or> isArchived x \<Longrightarrow> g x = x"
    and "\<And>x. taskId x = i \<Longrightarrow> taskId (g x) = i"
  shows "filter (\<lambda>x. taskId x \<noteq> i \<and> (status x \<noteq> s \<or> isArchived x)) (map g ts)
   = filter (\<lambda>x. taskId x \<noteq> i \<and> (status x \<noteq> s \<or> isArchived x)) ts"
proof (induction ts)
  case Nil
  then show ?case by simp
next
  case (Cons x xs)
  show ?case
  proof (cases "taskId x = i")
    case True
    then show ?thesis using Cons assms(3)[of x] by simp
  next
    case False
    then show ?thesis using Cons assms(1)[of x] assms(2)[of x] by auto
  qed
qed

lemma shift_inj: "inj (\<lambda>q::int. if p \<le> q then q + 1 else q)"
  by (auto simp: inj_def split: if_splits)

lemma distinct_positions_kept:
  assumes g1: "\<And>x. taskId x \<noteq> i \<Longrightarrow> taskId (g x) = taskId x \<and> status (g x) = status x \<and> isArchived (g x) = isArchived x"
    and g2: "\<And>x. taskId x \<noteq> i \<Longrightarrow> status x = s \<Longrightarrow> \<not> isArchived x \<Longrightarrow>
           position (g x) = (if p \<le> position x then position x + 1 else position x)"
    and g3: "\<And>x. taskId x = i \<Longrightarrow> g x = t'"
    and t': "position t' = p"
  shows "distinct (map taskId ts) \<Longrightarrow>
     distinct (map position (filter (\<lambda>x. taskId x \<noteq> i) (filter (\<lambda>t. status t = s \<and> \<not> isArchived t) ts))) \<Longrightarrow>
     distinct (map position (filter (\<lambda>t. status t = s \<and> \<not> isArchived t) (map g ts)))
     \<and> set (map position (filter (\<lambda>t. status t = s \<and> \<not> isArchived t) (map g ts)))
         \<subseteq> insert p ((\<lambda>q. if p \<le> q then q + 1 else q) `
              set (map position (filter (\<lambda>x. taskId x \<noteq> i) (filter (\<lambda>t. status t = s \<and> \<not> isArchived t) ts))))"
proof (induction ts)
  case Nil
  then show ?case by simp
next
  case (Cons x xs)
  let ?f = "\<lambda>q::int. if p \<le> q then q + 1 else q"
  let ?Q = "\<lambda>t. status t = s \<and> \<not> isArchived t"
  let ?old = "\<lambda>ys. map position (filter (\<lambda>x. taskId x \<noteq> i) (filter ?Q ys))"
  let ?new = "\<lambda>ys. map position (filter ?Q (map g ys))"
  define A where "A = ?new xs"
  define B where "B = ?old xs"
  have dxs: "distinct (map taskId xs)" using Cons.prems(1) by simp
  have favoid: "\<And>q. ?f q \<noteq> p" by simp
  have finj: "\<And>q r. ?f q = ?f r \<Longrightarrow> q = r" using injD[OF shift_inj, of p] by blast
  show ?case
  proof (cases "taskId x = i")
    case True
    have old: "?old (x # xs) = B" using True by (simp add: B_def)
    have ih: "distinct A" "set A \<subseteq> insert p (?f ` set B)"
      using Cons.IH[OF dxs] Cons.prems(2) old by (simp_all add: A_def B_def)
    have ni: "\<forall>y\<in>set xs. taskId y \<noteq> i" using Cons.prems(1) True by (auto simp: image_iff)
    have "set A \<subseteq> ?f ` set B"
    proof
      fix q assume "q \<in> set A"
      then obtain y where y: "y \<in> set xs" "?Q (g y)" "q = position (g y)" by (auto simp: A_def)
      then have yi: "taskId y \<noteq> i" using ni by blast
      then have "?Q y" "taskId y \<noteq> i" using g1[OF yi] y by auto
      then have "position y \<in> set B" using y(1) by (auto simp: B_def)
      moreover have "q = ?f (position y)" using y(3) g2[OF yi] \<open>?Q y\<close> by simp
      ultimately show "q \<in> ?f ` set B" by blast
    qed
    moreover have "p \<notin> ?f ` set B" by auto
    ultimately have pA: "p \<notin> set A" by blast
    have new: "?new (x # xs) = (if ?Q t' then p # A else A)"
      using g3[OF True] t' by (simp add: A_def)
    have "distinct (if ?Q t' then p # A else A)" using pA ih(1) by simp
    moreover have "set (if ?Q t' then p # A else A) \<subseteq> insert p (?f ` set B)"
      using ih(2) by auto
    ultimately show ?thesis unfolding new old by blast
  next
    case False
    show ?thesis
    proof (cases "?Q x")
      case q: True
      have old: "?old (x # xs) = position x # B" using False q by (simp add: B_def)
      then have d0: "distinct B" and nin: "position x \<notin> set B"
        using Cons.prems(2) by auto
      have ih: "distinct A" "set A \<subseteq> insert p (?f ` set B)"
        using Cons.IH[OF dxs] d0 by (simp_all add: A_def B_def)
      have "?f (position x) \<notin> ?f ` set B"
      proof
        assume "?f (position x) \<in> ?f ` set B"
        then obtain r where "r \<in> set B" "?f (position x) = ?f r" by blast
        then show False using finj nin by blast
      qed
      then have nA: "?f (position x) \<notin> set A" using ih(2) favoid[of "position x"] by blast
      have new: "?new (x # xs) = ?f (position x) # A"
        using False q g1[OF False] g2[OF False] by (simp add: A_def)
      have "distinct (?f (position x) # A)" using nA ih(1) by simp
      moreover have "set (?f (position x) # A) \<subseteq> insert p (?f ` set (position x # B))"
        using ih(2) by auto
      ultimately show ?thesis unfolding new old by blast
    next
      case nq: False
      then have "?old (x # xs) = ?old xs" "?new (x # xs) = ?new xs" using False g1[OF False] by auto
      then show ?thesis using Cons.IH[OF dxs] Cons.prems(2) by simp
    qed
  qed
qed

lemma distinct_map_sort_key: "distinct (map f (sort_key k xs)) = distinct (map f xs)"
  by (simp add: distinct_map)

text \<open>
  C4, as the code has it. After a successful \<^verbatim>\<open>moveTask\<close> into a column whose positions
  are safe integers, the moved task has the requested status and exactly the requested
  position: nothing clamps it to the size of the column. Every other task of the target
  column (same status, not archived) at a position at least the requested one is shifted
  up by one, the others of that column keep their position, and no task outside the target
  column is touched. When ids are unique and the positions of the other tasks of the
  target column were pairwise distinct, the positions of the target column are pairwise
  distinct afterwards; they need not be \<open>0..n-1\<close>.
\<close>

theorem moveTask_positions:
  assumes ok: "statusCode (fst (moveTask rt req i b st)) = 200"
    and safe: "list_all (\<lambda>x. isSafeInteger (position x)) (column (m_status b) st)"
  shows "(\<exists>t'. findById i (tasks (snd (moveTask rt req i b st))) = Some t'
              \<and> status t' = m_status b \<and> position t' = m_position b)
     \<and> map position
          (filter (\<lambda>x. taskId x \<noteq> i \<and> status x = m_status b \<and> \<not> isArchived x)
             (tasks (snd (moveTask rt req i b st))))
        = map (\<lambda>x. if m_position b \<le> position x then position x + 1 else position x)
            (filter (\<lambda>x. taskId x \<noteq> i \<and> status x = m_status b \<and> \<not> isArchived x) (tasks st))
     \<and> filter (\<lambda>x. taskId x \<noteq> i \<and> (status x \<noteq> m_status b \<or> isArchived x))
          (tasks (snd (moveTask rt req i b st)))
        = filter (\<lambda>x. taskId x \<noteq> i \<and> (status x \<noteq> m_status b \<or> isArchived x)) (tasks st)
     \<and> (distinct (map taskId (tasks st))
          \<and> distinct (map position (filter (\<lambda>x. taskId x \<noteq> i) (column (m_status b) st)))
         \<longrightarrow> distinct (map position (column (m_status b) (snd (moveTask rt req i b st)))))"
proof -
  obtain t where t: "findById i (tasks st) = Some t" "\<not> isArchived t"
      "\<not> conflictCheck (m_version b) t" "validationErrors rt t = []"
    using moveTask_200[OF ok] by blast
  obtain t' where p: "status t' = m_status b" "position t' = m_position b" "taskId t' = i"
     and tk: "tasks (snd (moveTask rt req i b st)) =
               map (\<lambda>x. if taskId x = i then t'
                         else if status x = m_status b \<and> m_position b \<le> position x \<and> \<not> isArchived x
                         then x\<lparr>position := plusOne (position x), updatedAt := clock rt\<rparr> else x) (tasks st)"
    using moveTask_tasks[OF t, of req] by blast
  define g where "g = (\<lambda>x. if taskId x = i then t'
                         else if status x = m_status b \<and> m_position b \<le> position x \<and> \<not> isArchived x
                         then x\<lparr>position := position x + 1, updatedAt := clock rt\<rparr> else x)"
  have sf: "\<And>x. x \<in> set (tasks st) \<Longrightarrow> status x = m_status b \<Longrightarrow> \<not> isArchived x \<Longrightarrow>
              plusOne (position x) = position x + 1"
  proof -
    fix x assume "x \<in> set (tasks st)" "status x = m_status b" "\<not> isArchived x"
    then have "x \<in> set (column (m_status b) st)" by (simp add: column_def)
    then have "isSafeInteger (position x)" using safe by (simp add: list_all_iff)
    then show "plusOne (position x) = position x + 1" by (rule plusOne_safe)
  qed
  have tk': "tasks (snd (moveTask rt req i b st)) = map g (tasks st)"
    unfolding tk g_def by (rule map_cong) (auto simp: sf)
  have g1: "\<And>x. taskId x \<noteq> i \<Longrightarrow>
      taskId (g x) = taskId x \<and> status (g x) = status x \<and> isArchived (g x) = isArchived x"
    by (simp add: g_def)
  have g2: "\<And>x. taskId x \<noteq> i \<Longrightarrow> status x = m_status b \<Longrightarrow> \<not> isArchived x \<Longrightarrow>
           position (g x) = (if m_position b \<le> position x then position x + 1 else position x)"
    by (simp add: g_def)
  have g3: "\<And>x. taskId x = i \<Longrightarrow> g x = t'" by (simp add: g_def)
  have g3': "\<And>x. taskId x = i \<Longrightarrow> taskId (g x) = i" by (simp add: g_def p)
  have g4: "\<And>x. taskId x \<noteq> i \<Longrightarrow> status x \<noteq> m_status b \<or> isArchived x \<Longrightarrow> g x = x"
    by (auto simp: g_def)
  have g1': "\<And>x. taskId x \<noteq> i \<Longrightarrow> taskId (g x) = taskId x" using g1 by blast
  have c1: "findById i (map g (tasks st)) = Some t'"
    using findById_map[OF g3 g1' p(3) t(1)] by simp
  have "map position (filter (\<lambda>x. taskId x \<noteq> i)
          (filter (\<lambda>t. status t = m_status b \<and> \<not> isArchived t) (map g (tasks st))))
        = map (\<lambda>x. if m_position b \<le> position x then position x + 1 else position x)
            (filter (\<lambda>x. taskId x \<noteq> i)
               (filter (\<lambda>t. status t = m_status b \<and> \<not> isArchived t) (tasks st)))"
    using shifted_positions[of i g "m_status b" "m_position b" "tasks st", OF g1 g2 g3'] by blast
  then have c2: "map position
          (filter (\<lambda>x. taskId x \<noteq> i \<and> status x = m_status b \<and> \<not> isArchived x) (map g (tasks st)))
        = map (\<lambda>x. if m_position b \<le> position x then position x + 1 else position x)
            (filter (\<lambda>x. taskId x \<noteq> i \<and> status x = m_status b \<and> \<not> isArchived x) (tasks st))"
    by (simp add: conj_commute conj_left_commute)
  have c3: "filter (\<lambda>x. taskId x \<noteq> i \<and> (status x \<noteq> m_status b \<or> isArchived x)) (map g (tasks st))
        = filter (\<lambda>x. taskId x \<noteq> i \<and> (status x \<noteq> m_status b \<or> isArchived x)) (tasks st)"
    using others_untouched[of i g "m_status b" "tasks st", OF g1 g4 g3'] by blast
  have c4: "distinct (map taskId (tasks st)) \<Longrightarrow>
      distinct (map position (filter (\<lambda>x. taskId x \<noteq> i) (column (m_status b) st))) \<Longrightarrow>
      distinct (map position (column (m_status b) (snd (moveTask rt req i b st))))"
  proof -
    assume d: "distinct (map taskId (tasks st))"
      and dp: "distinct (map position (filter (\<lambda>x. taskId x \<noteq> i) (column (m_status b) st)))"
    have "distinct (map position (filter (\<lambda>x. taskId x \<noteq> i)
         (filter (\<lambda>t. status t = m_status b \<and> \<not> isArchived t) (tasks st))))"
      using dp by (simp add: column_def filter_sort distinct_map_sort_key)
    then have "distinct (map position
         (filter (\<lambda>t. status t = m_status b \<and> \<not> isArchived t) (map g (tasks st))))"
      using distinct_positions_kept[of i g "m_status b" "m_position b" t' "tasks st",
          OF g1 g2 g3 p(2) d]
      by blast
    then show ?thesis by (simp add: column_def tk' distinct_map_sort_key)
  qed
  show ?thesis
    unfolding tk' using c1 c2 c3 c4[unfolded tk'] p by blast
qed

theorem moveTask_positions_witness:
  "statusCode (fst (moveTask exampleRuntime (requestOf bob) 12
      \<lparr>m_status = Todo, m_position = 0, m_version = Some 1\<rparr> exampleDb)) = 200
   \<and> map position (filter (\<lambda>x. taskId x \<noteq> 12 \<and> status x = Todo \<and> \<not> isArchived x)
        (tasks (snd (moveTask exampleRuntime (requestOf bob) 12
           \<lparr>m_status = Todo, m_position = 0, m_version = Some 1\<rparr> exampleDb)))) = [1, 3]
   \<and> distinct (map position (column Todo
        (snd (moveTask exampleRuntime (requestOf bob) 12
           \<lparr>m_status = Todo, m_position = 0, m_version = Some 1\<rparr> exampleDb))))"
proof -
  have ok: "statusCode (fst (moveTask exampleRuntime (requestOf bob) 12
      \<lparr>m_status = Todo, m_position = 0, m_version = Some 1\<rparr> exampleDb)) = 200"
    by (simp add: eval_defs)
  have safe: "list_all (\<lambda>x. isSafeInteger (position x))
      (column (m_status \<lparr>m_status = Todo, m_position = 0, m_version = Some 1\<rparr>) exampleDb)"
    by (simp add: column_def exampleDb_def exampleTask_def isSafeInteger_def)
  have col: "map position (filter (\<lambda>x. taskId x \<noteq> 12) (column Todo exampleDb)) = [0, 2]"
    by (simp add: column_def exampleDb_def exampleTask_def)
  show ?thesis
    using moveTask_positions[OF ok safe] ok col
    by (simp add: exampleDb_def exampleTask_def)
qed

text \<open>
  The claim as the spec states it fails on the example board: moving the first task to
  position 5 of its own column of three leaves the positions 1, 2 and 5.
\<close>

theorem move_unclamped_counterexample:
  "map (\<lambda>x. (taskId x, position x)) (column Todo exampleDb) = [(11, 0), (12, 1), (13, 2)]
   \<and> statusCode (fst (putMove exampleRuntime (requestOf alice) 11
        \<lparr>m_status = Todo, m_position = 5, m_version = Some 1\<rparr> exampleDb)) = 200
   \<and> map (\<lambda>x. (taskId x, position x))
       (column Todo (snd (putMove exampleRuntime (requestOf alice) 11
          \<lparr>m_status = Todo, m_position = 5, m_version = Some 1\<rparr> exampleDb)))
     = [(12, 1), (13, 2), (11, 5)]"
  by (simp add: eval_defs)

subsection \<open>The version of the task a request names\<close>

lemma updateTask_version:
  assumes f: "findById i (tasks st) = Some t"
    and sf: "isSafeInteger (version t)"
    and v: "case u_version b of None \<Rightarrow> True | Some x \<Rightarrow> joiInteger 1 x"
    and a: "findById i (tasks (snd (updateTask rt req i b st))) = Some t'" and n: "t' \<noteq> t"
  shows "version t < version t'"
proof -
  let ?doc = "(objectAssign b t)
                \<lparr>lastModified := clock rt, lastModifiedBy := Some (userId (reqUser req))\<rparr>"
  have id: "taskId t = i" using f by (simp add: findById_Some)
  have unchanged: "tasks (snd (updateTask rt req i b st)) = tasks st \<Longrightarrow> False"
    using a f n by simp
  have na: "\<not> isArchived t" using unchanged f by (auto simp: updateTask_def)
  have nc: "\<not> conflictCheck (u_version b) t"
    using unchanged f na by (auto simp: updateTask_def tasks_logActivity)
  obtain u where u: "titleCheck rt i (u_title b) t st = Some u"
    using unchanged f na nc by (cases "titleCheck rt i (u_title b) t st") (auto simp: updateTask_def)
  show ?thesis
  proof (cases "save rt (Some t) ?doc st")
    case (Inl errs)
    then have "tasks (snd (updateTask rt req i b st)) = tasks st"
      using f na nc u by (simp add: updateTask_def)
    then show ?thesis using unchanged by blast
  next
    case (Inr r)
    obtain d st1 where r: "r = (d, st1)" by (cases r)
    have tid: "taskId ?doc = i" using id by (simp add: objectAssign_def)
    note sv = save_target[OF Inr[unfolded r] f tid]
    have "tasks (snd (updateTask rt req i b st)) = tasks st1
          \<or> tasks (snd (updateTask rt req i b st)) = tasks st"
      using f na nc u Inr r by (simp add: updateTask_def tasks_logActivity)
    then have "t' = d" using unchanged a sv(1) by auto
    then have e: "version t' = plusOne (version ?doc)" using sv(2) n by simp
    have le: "version t \<le> version ?doc"
      using nc v by (auto simp: objectAssign_def conflictCheck_def hasConflict_def joiInteger_def
          split: option.splits)
    have "isSafeInteger (version ?doc)"
      using sf v by (auto simp: objectAssign_def joiInteger_def split: option.splits)
    then have "plusOne (version ?doc) = version ?doc + 1" by (rule plusOne_safe)
    then show ?thesis using e le by simp
  qed
qed

lemma moveTask_version:
  assumes f: "findById i (tasks st) = Some t"
    and sf: "isSafeInteger (version t)"
    and a: "findById i (tasks (snd (moveTask rt req i b st))) = Some t'" and n: "t' \<noteq> t"
  shows "version t < version t'"
proof -
  let ?doc = "t\<lparr>status := m_status b, position := m_position b,
                lastModifiedBy := Some (userId (reqUser req))\<rparr>"
  have id: "taskId t = i" using f by (simp add: findById_Some)
  have unchanged: "tasks (snd (moveTask rt req i b st)) = tasks st \<Longrightarrow> False"
    using a f n by simp
  have na: "\<not> isArchived t" using unchanged f by (auto simp: moveTask_def)
  have nc: "\<not> conflictCheck (m_version b) t"
    using unchanged f na by (auto simp: moveTask_def)
  have "validationErrors rt ?doc = []"
  proof (rule ccontr)
    assume "validationErrors rt ?doc \<noteq> []"
    from save_invalid[OF this, of "Some t" st] show False
      using unchanged f na nc by (simp add: moveTask_def)
  qed
  then have va: "validationErrors rt t = []" using validationErrors_same[of ?doc t rt] by simp
  obtain d where s: "save rt (Some t) ?doc st
               = Inr (d, st\<lparr>tasks := map (\<lambda>x. if taskId x = i then d else x) (tasks st)\<rparr>)"
     and di: "taskId d = i"
     and tk: "tasks (snd (moveTask rt req i b st)) =
               map (\<lambda>x. if taskId x = i then d
                         else if status x = m_status b \<and> m_position b \<le> position x \<and> \<not> isArchived x
                         then x\<lparr>position := plusOne (position x), updatedAt := clock rt\<rparr> else x) (tasks st)"
    using moveTask_tasks[OF f na nc va, of req] by blast
  have "findById i (tasks (snd (moveTask rt req i b st))) = Some d"
    unfolding tk by (rule findById_map[OF _ _ di f]) simp_all
  then have "t' = d" using a by simp
  then show ?thesis using save_target(2)[OF s f] id n plusOne_safe[OF sf] by simp
qed

lemma assignTask_version:
  assumes f: "findById i (tasks st) = Some t"
    and sf: "isSafeInteger (version t)"
    and a: "findById i (tasks (snd (assignTask rt req i b st))) = Some t'" and n: "t' \<noteq> t"
  shows "version t < version t'"
proof -
  let ?doc = "t\<lparr>assignedTo := a_assignedTo b, lastModifiedBy := Some (userId (reqUser req))\<rparr>"
  have id: "taskId t = i" using f by (simp add: findById_Some)
  have unchanged: "tasks (snd (assignTask rt req i b st)) = tasks st \<Longrightarrow> False"
    using a f n by simp
  show ?thesis
  proof (cases "save rt (Some t) ?doc st")
    case (Inl errs)
    then have "tasks (snd (assignTask rt req i b st)) = tasks st"
      using f by (simp add: assignTask_def split: option.splits)
    then show ?thesis using unchanged by blast
  next
    case (Inr r)
    obtain d st1 where r: "r = (d, st1)" by (cases r)
    have tid: "taskId ?doc = i" using id by simp
    note sv = save_target[OF Inr[unfolded r] f tid]
    have "tasks (snd (assignTask rt req i b st)) = tasks st1
          \<or> tasks (snd (assignTask rt req i b st)) = tasks st"
      using f Inr r by (simp add: assignTask_def tasks_logActivity split: option.splits)
    then have "t' = d" using unchanged a sv(1) id by auto
    then show ?thesis using sv(2) n id plusOne_safe[OF sf] by simp
  qed
qed

lemma smartAssignTask_version:
  assumes f: "findById i (tasks st) = Some t"
    and sf: "isSafeInteger (version t)"
    and a: "findById i (tasks (snd (smartAssignTask rt req i cv st))) = Some t'" and n: "t' \<noteq> t"
  shows "version t < version t'"
proof -
  have id: "taskId t = i" using f by (simp add: findById_Some)
  have unchanged: "tasks (snd (smartAssignTask rt req i cv st)) = tasks st \<Longrightarrow> False"
    using a f n by simp
  show ?thesis
  proof (cases "findUserWithFewestTasks rt st")
    case (Inl e)
    then have "tasks (snd (smartAssignTask rt req i cv st)) = tasks st"
      using f by (simp add: smartAssignTask_def)
    then show ?thesis using unchanged by blast
  next
    case u: (Inr u)
    let ?doc = "t\<lparr>assignedTo := Some (userId u), lastModifiedBy := Some (userId (reqUser req))\<rparr>"
    show ?thesis
    proof (cases "save rt (Some t) ?doc st")
      case (Inl errs)
      then have "tasks (snd (smartAssignTask rt req i cv st)) = tasks st"
        using f u by (simp add: smartAssignTask_def)
      then show ?thesis using unchanged by blast
    next
      case (Inr r)
      obtain d st1 where r: "r = (d, st1)" by (cases r)
      have tid: "taskId ?doc = i" using id by simp
      note sv = save_target[OF Inr[unfolded r] f tid]
      have "tasks (snd (smartAssignTask rt req i cv st)) = tasks st1
            \<or> tasks (snd (smartAssignTask rt req i cv st)) = tasks st"
        using f u Inr r by (simp add: smartAssignTask_def tasks_logActivity)
      then have "t' = d" using unchanged a sv(1) id by auto
      then show ?thesis using sv(2) n id plusOne_safe[OF sf] by simp
    qed
  qed
qed

lemma addComment_version:
  assumes f: "findById i (tasks st) = Some t"
    and sf: "isSafeInteger (version t)"
    and a: "findById i (tasks (snd (addComment rt req i c st))) = Some t'" and n: "t' \<noteq> t"
  shows "version t < version t'"
proof -
  let ?doc = "pushComment rt c (userId (reqUser req)) t"
  have id: "taskId t = i" using f by (simp add: findById_Some)
  have tid: "taskId ?doc = i" "version ?doc = version t" using id by (simp_all add: pushComment_def)
  have unchanged: "tasks (snd (addComment rt req i c st)) = tasks st \<Longrightarrow> False"
    using a f n by simp
  show ?thesis
  proof (cases "save rt (Some t) ?doc st")
    case (Inl errs)
    then have "tasks (snd (addComment rt req i c st)) = tasks st"
      using f by (simp add: addComment_def)
    then show ?thesis using unchanged by blast
  next
    case (Inr r)
    obtain d st1 where r: "r = (d, st1)" by (cases r)
    note sv = save_target[OF Inr[unfolded r] f tid(1)]
    have "tasks (snd (addComment rt req i c st)) = tasks st1
          \<or> tasks (snd (addComment rt req i c st)) = tasks st"
      using f Inr r by (simp add: addComment_def tasks_logActivity)
    then have "t' = d" using unchanged a sv(1) by auto
    then show ?thesis using sv(2) n tid(2) plusOne_safe[OF sf] by simp
  qed
qed

lemma archiveTask_version:
  assumes f: "findById i (tasks st) = Some t"
    and sf: "isSafeInteger (version t)"
    and a: "findById i (tasks (snd (archiveTask rt req i st))) = Some t'" and n: "t' \<noteq> t"
  shows "version t < version t'"
proof -
  let ?doc = "archive rt (userId (reqUser req)) t"
  have id: "taskId t = i" using f by (simp add: findById_Some)
  have tid: "taskId ?doc = i" "version ?doc = version t" using id by (simp_all add: archive_def)
  have unchanged: "tasks (snd (archiveTask rt req i st)) = tasks st \<Longrightarrow> False"
    using a f n by simp
  show ?thesis
  proof (cases "save rt (Some t) ?doc st")
    case (Inl errs)
    then have "tasks (snd (archiveTask rt req i st)) = tasks st"
      using f by (simp add: archiveTask_def)
    then show ?thesis using unchanged by blast
  next
    case (Inr r)
    obtain d st1 where r: "r = (d, st1)" by (cases r)
    note sv = save_target[OF Inr[unfolded r] f tid(1)]
    have "tasks (snd (archiveTask rt req i st)) = tasks st1
          \<or> tasks (snd (archiveTask rt req i st)) = tasks st"
      using f Inr r by (simp add: archiveTask_def tasks_logActivity)
    then have "t' = d" using unchanged a sv(1) by auto
    then show ?thesis using sv(2) n tid(2) plusOne_safe[OF sf] by simp
  qed
qed

lemma deleteTask_version:
  assumes f: "findById i (tasks st) = Some t"
    and a: "findById i (tasks (snd (deleteTask rt req i st))) = Some t'" and n: "t' \<noteq> t"
  shows "version t < version t'"
proof -
  have "tasks (snd (deleteTask rt req i st)) = tasks st
        \<or> tasks (snd (deleteTask rt req i st)) = filter (\<lambda>x. taskId x \<noteq> i) (tasks st)"
    using f by (simp add: deleteTask_def tasks_logActivity)
  then show ?thesis using a f n by (auto simp: findById_filter_out)
qed

lemma validate_Inr: "validate schema b = Inr v \<Longrightarrow> fst (schema b) = [] \<and> v = snd (schema b)"
  by (auto simp: validate_def split: if_splits)


text \<open>
  C2, as the code has it. For every request of the task router that names a task T
  (update, move, assign, smart-assign, comment, archive, delete), with any body, when the
  stored version of T is a safe integer: if T is still stored afterwards and its document
  differs from the one before, its version is strictly greater than before. The
  middleware increments the version only under \<^verbatim>\<open>this.isModified()\<close>, so a request that
  changes no path of T succeeds without a new version; tasks renumbered by another task's
  move are not saved. The version is a double: from \<open>2\<^sup>5\<^sup>3\<close> on, adding 1 no longer changes
  it.
\<close>

theorem version_increases_when_changed:
  assumes p: "paramsId r = Some i"
    and f: "findById i (tasks st) = Some t"
    and sf: "isSafeInteger (version t)"
    and a: "findById i (tasks (snd (router rt req r st))) = Some t'"
    and n: "t' \<noteq> t"
  shows "version t < version t'"
proof (cases r)
  case (PostTask b)
  then show ?thesis using p by simp
next
  case (PutTask j b)
  then have j: "j = i" using p by simp
  show ?thesis
  proof (cases "validate (taskSchemas_update rt) b")
    case (Inl e)
    then show ?thesis using a f n PutTask by (simp add: putTask_def)
  next
    case (Inr v)
    then have v: "v = b" "fst (taskSchemas_update rt b) = []"
      using validate_Inr[OF Inr] by (simp_all add: taskSchemas_update_def)
    then have "case u_version b of None \<Rightarrow> True | Some x \<Rightarrow> joiInteger 1 x"
      by (auto simp: taskSchemas_update_def split: option.splits if_splits)
    then show ?thesis
      using updateTask_version[OF f sf _ _ n, of b rt req] a PutTask j Inr v(1)
      by (simp add: putTask_def)
  qed
next
  case (DeleteTask j)
  then show ?thesis using deleteTask_version[OF f _ n, of rt req] a p by simp
next
  case (PutMove j b)
  then have j: "j = i" using p by simp
  show ?thesis
  proof (cases "validate taskSchemas_move b")
    case (Inl e)
    then show ?thesis using a f n PutMove by (simp add: putMove_def)
  next
    case (Inr v)
    then have "v = b" using validate_Inr[OF Inr] by (simp add: taskSchemas_move_def)
    then show ?thesis
      using moveTask_version[OF f sf _ n, of rt req b] a PutMove j Inr by (simp add: putMove_def)
  qed
next
  case (PutAssign j b)
  then have j: "j = i" using p by simp
  show ?thesis
  proof (cases "validate taskSchemas_assign b")
    case (Inl e)
    then show ?thesis using a f n PutAssign by (simp add: putAssign_def)
  next
    case (Inr v)
    then have "v = b" using validate_Inr[OF Inr] by (simp add: taskSchemas_assign_def)
    then show ?thesis
      using assignTask_version[OF f sf _ n, of rt req b] a PutAssign j Inr
      by (simp add: putAssign_def)
  qed
next
  case (PostSmartAssign j cv)
  then show ?thesis using smartAssignTask_version[OF f sf _ n, of rt req cv] a p by simp
next
  case (PostComment j body)
  then have j: "j = i" using p by simp
  show ?thesis
  proof (cases "validate taskSchemas_comment body")
    case (Inl e)
    then show ?thesis using a f n PostComment by (simp add: postComment_def)
  next
    case (Inr v)
    then have "v = body" using validate_Inr[OF Inr] by (simp add: taskSchemas_comment_def)
    then show ?thesis
      using addComment_version[OF f sf _ n, of rt req body] a PostComment j Inr
      by (simp add: postComment_def)
  qed
next
  case (PutArchive j)
  then show ?thesis using archiveTask_version[OF f sf _ n, of rt req] a p by simp
qed

theorem version_increases_when_changed_witness:
  "\<exists>t'. findById 11 (tasks (snd (router exampleRuntime (requestOf bob)
             (PutTask 11 (emptyUpdate\<lparr>u_priority := Some High, u_version := Some 1\<rparr>))
             exampleDb))) = Some t'
        \<and> priority t' = High
        \<and> version (exampleTask 11 ''Write tests'' 0 (Some 1)) < version t'"
proof -
  let ?r = "PutTask 11 (emptyUpdate\<lparr>u_priority := Some High, u_version := Some 1\<rparr>)"
  have f: "findById 11 (tasks exampleDb) = Some (exampleTask 11 ''Write tests'' 0 (Some 1))"
    by (simp add: exampleDb_def findById_def exampleTask_def)
  have sf: "isSafeInteger (version (exampleTask 11 ''Write tests'' 0 (Some 1)))"
    by (simp add: isSafeInteger_def exampleTask_def)
  have "map_option priority (findById 11 (tasks (snd (router exampleRuntime (requestOf bob) ?r
          exampleDb)))) = Some High"
    by (simp add: eval_defs)
  then obtain t' where a: "findById 11 (tasks (snd (router exampleRuntime (requestOf bob) ?r
          exampleDb))) = Some t'" and pr: "priority t' = High"
    by auto
  have n: "t' \<noteq> exampleTask 11 ''Write tests'' 0 (Some 1)"
    using pr by (auto simp: exampleTask_def)
  show ?thesis
    using version_increases_when_changed[OF _ f sf a n] a pr by simp
qed

text \<open>
  The claim as the spec states it fails on the example board: Alice, who last modified
  task 11 and is its assignee, assigns it to herself again; the request succeeds and the
  version is still 1. And when task 13 is moved to the front, task 11 goes from position 0
  to position 1 with its version still 1.
\<close>

theorem version_unchanged_counterexample:
  "map_option version (findById 11 (tasks exampleDb)) = Some 1
   \<and> statusCode (fst (router exampleRuntime (requestOf alice)
        (PutAssign 11 \<lparr>a_assignedTo = Some 1, a_version = Some 1\<rparr>) exampleDb)) = 200
   \<and> map_option version (findById 11 (tasks (snd (router exampleRuntime (requestOf alice)
        (PutAssign 11 \<lparr>a_assignedTo = Some 1, a_version = Some 1\<rparr>) exampleDb)))) = Some 1
   \<and> map_option position (findById 11 (tasks exampleDb)) = Some 0
   \<and> statusCode (fst (router exampleRuntime (requestOf alice)
        (PutMove 13 \<lparr>m_status = Todo, m_position = 0, m_version = Some 1\<rparr>) exampleDb)) = 200
   \<and> map_option (\<lambda>x. (position x, version x))
        (findById 11 (tasks (snd (router exampleRuntime (requestOf alice)
           (PutMove 13 \<lparr>m_status = Todo, m_position = 0, m_version = Some 1\<rparr>) exampleDb))))
      = Some (1, 1)"
  by (simp add: eval_defs)

subsection \<open>Comments\<close>






subsection \<open>Creating a task\<close>








subsection \<open>Smart-Assign\<close>

lemma mathMin_least:
  assumes "xs \<noteq> []"
  shows "\<exists>m. mathMin xs = Some m \<and> m \<in> set xs \<and> (\<forall>x\<in>set xs. m \<le> x)"
proof -
  obtain y ys where xs: "xs = y # ys" using assms by (cases xs) auto
  have "fold min ys y = Min (set (y # ys))" by (rule Min.set_eq_fold[symmetric])
  then show ?thesis using xs Min_in[of "set (y # ys)"] Min_le[of "set (y # ys)"]
    by (auto simp del: set_simps)
qed

lemma randomIndex_interval:
  assumes "0 \<le> r" "0 < n"
  shows "randomIndex r n = k \<longleftrightarrow> real k / real n \<le> r \<and> r < (real k + 1) / real n"
proof -
  have nn: "0 \<le> \<lfloor>r * real n\<rfloor>" using assms by simp
  have "randomIndex r n = k \<longleftrightarrow> \<lfloor>r * real n\<rfloor> = int k"
    unfolding randomIndex_def using nn by linarith
  also have "\<dots> \<longleftrightarrow> real k \<le> r * real n \<and> r * real n < real k + 1"
    by (simp add: floor_eq_iff)
  also have "\<dots> \<longleftrightarrow> real k / real n \<le> r \<and> r < (real k + 1) / real n"
    using assms(2) by (simp add: pos_divide_le_eq pos_less_divide_eq)
  finally show ?thesis .
qed

lemma randomIndex_less:
  assumes "0 \<le> r" "r < 1" "0 < n"
  shows "randomIndex r n < n"
proof -
  have "r * real n < real n" using assms by simp
  then have "\<lfloor>r * real n\<rfloor> < int n" by (simp add: floor_less_iff)
  then show ?thesis unfolding randomIndex_def using assms by linarith
qed

lemma usersWithMinTasks_eq:
  assumes "findActiveUsers st \<noteq> []"
  shows "map fst (usersWithMinTasks st) =
         filter (\<lambda>u. \<forall>v\<in>set (findActiveUsers st).
                   countDocuments u (tasks st) \<le> countDocuments v (tasks st))
           (findActiveUsers st)"
proof -
  let ?cs = "map snd (userTaskCounts st)"
  have cs: "?cs = map (\<lambda>u. countDocuments u (tasks st)) (findActiveUsers st)"
    by (simp add: userTaskCounts_def comp_def)
  then have "?cs \<noteq> []" using assms by simp
  then obtain m where m: "mathMin ?cs = Some m" "m \<in> set ?cs" "\<forall>x\<in>set ?cs. m \<le> x"
    using mathMin_least by blast
  have iff: "\<And>u. u \<in> set (findActiveUsers st) \<Longrightarrow>
      (countDocuments u (tasks st) = m) =
      (\<forall>v\<in>set (findActiveUsers st). countDocuments u (tasks st) \<le> countDocuments v (tasks st))"
  proof -
    fix u assume u: "u \<in> set (findActiveUsers st)"
    obtain w where w: "w \<in> set (findActiveUsers st)" "countDocuments w (tasks st) = m"
      using m(2) cs by auto
    have le: "\<forall>v\<in>set (findActiveUsers st). m \<le> countDocuments v (tasks st)"
      using m(3) cs by auto
    show "(countDocuments u (tasks st) = m) =
      (\<forall>v\<in>set (findActiveUsers st). countDocuments u (tasks st) \<le> countDocuments v (tasks st))"
      using w le u by (metis le_antisym)
  qed
  have "map fst (usersWithMinTasks st) =
        filter (\<lambda>u. countDocuments u (tasks st) = m) (findActiveUsers st)"
    unfolding usersWithMinTasks_def m(1) by (simp add: userTaskCounts_def filter_map comp_def)
  also have "\<dots> = filter (\<lambda>u. \<forall>v\<in>set (findActiveUsers st).
                   countDocuments u (tasks st) \<le> countDocuments v (tasks st))
           (findActiveUsers st)"
    using iff by (simp cong: filter_cong)
  finally show ?thesis .
qed

lemma usersWithMinTasks_nonempty:
  assumes "findActiveUsers st \<noteq> []"
  shows "usersWithMinTasks st \<noteq> []"
proof -
  let ?cs = "map snd (userTaskCounts st)"
  have "?cs \<noteq> []" using assms by (simp add: userTaskCounts_def)
  then obtain m where m: "mathMin ?cs = Some m" "m \<in> set ?cs"
    using mathMin_least by blast
  then obtain utc where "utc \<in> set (userTaskCounts st)" "snd utc = m" by auto
  then have "utc \<in> set (usersWithMinTasks st)" using m(1) by (simp add: usersWithMinTasks_def)
  then show ?thesis by auto
qed

text \<open>
  C7. With at least one active user and \<^verbatim>\<open>Math.random()\<close> in \<open>[0, 1)\<close>, Smart-Assign returns a
  user. The load of each active user is the number of non-archived tasks assigned to the
  user whose status is todo or in-progress; the candidates are exactly the active users of
  minimal load, in the order of the user list, and the result is the candidate at index
  \<open>\<lfloor>r * n\<rfloor>\<close>. Candidate \<open>k\<close> of \<open>n\<close> is chosen exactly when \<open>r\<close> lies in \<open>[k/n, (k+1)/n)\<close>: every
  candidate has an interval of the same length \<open>1/n\<close>, which is the uniform choice for a
  uniform \<open>r\<close>.
\<close>

theorem smart_assign_least_loaded:
  assumes act: "findActiveUsers st \<noteq> []"
    and r: "0 \<le> mathRandom rt" "mathRandom rt < 1"
  shows "(\<exists>u. findUserWithFewestTasks rt st = Inr u
            \<and> u = fst (usersWithMinTasks st
                        ! randomIndex (mathRandom rt) (length (usersWithMinTasks st)))
            \<and> u \<in> set (findActiveUsers st)
            \<and> (\<forall>v\<in>set (findActiveUsers st).
                  countDocuments u (tasks st) \<le> countDocuments v (tasks st)))
     \<and> userTaskCounts st =
         map (\<lambda>u. (u, length (filter (\<lambda>t. assignedTo t = Some (userId u)
                                          \<and> (status t = Todo \<or> status t = InProgress)
                                          \<and> \<not> isArchived t) (tasks st))))
           (filter isActive (users st))
     \<and> map fst (usersWithMinTasks st) =
         filter (\<lambda>u. \<forall>v\<in>set (findActiveUsers st).
                   countDocuments u (tasks st) \<le> countDocuments v (tasks st))
           (findActiveUsers st)
     \<and> (\<forall>k. randomIndex (mathRandom rt) (length (usersWithMinTasks st)) = k \<longleftrightarrow>
              real k / real (length (usersWithMinTasks st)) \<le> mathRandom rt
              \<and> mathRandom rt < (real k + 1) / real (length (usersWithMinTasks st)))"
proof -
  let ?n = "length (usersWithMinTasks st)"
  let ?k = "randomIndex (mathRandom rt) ?n"
  let ?u = "fst (usersWithMinTasks st ! ?k)"
  have n: "0 < ?n" using usersWithMinTasks_nonempty[OF act] by simp
  have k: "?k < ?n" by (rule randomIndex_less[OF r n])
  have res: "findUserWithFewestTasks rt st = Inr ?u"
    using act k r by (simp add: findUserWithFewestTasks_def Let_def)
  have "?u \<in> set (map fst (usersWithMinTasks st))" using k by (metis length_map nth_map nth_mem)
  then have mem: "?u \<in> set (findActiveUsers st)"
     and least: "\<forall>v\<in>set (findActiveUsers st). countDocuments ?u (tasks st) \<le> countDocuments v (tasks st)"
    unfolding usersWithMinTasks_eq[OF act] by auto
  have counts: "userTaskCounts st =
         map (\<lambda>u. (u, length (filter (\<lambda>t. assignedTo t = Some (userId u)
                                          \<and> (status t = Todo \<or> status t = InProgress)
                                          \<and> \<not> isArchived t) (tasks st))))
           (filter isActive (users st))"
    by (simp add: userTaskCounts_def countDocuments_def findActiveUsers_def)
  have unif: "\<forall>k. ?k = k \<longleftrightarrow> real k / real ?n \<le> mathRandom rt
              \<and> mathRandom rt < (real k + 1) / real ?n"
    using randomIndex_interval[OF r(1) n] by blast
  show ?thesis using res mem least counts usersWithMinTasks_eq[OF act] unif by blast
qed

theorem smart_assign_least_loaded_witness:
  "map (\<lambda>p. (userId (fst p), snd p)) (userTaskCounts exampleDb) = [(1, 2), (2, 0), (3, 0)]
   \<and> map (\<lambda>p. userId (fst p)) (usersWithMinTasks exampleDb) = [2, 3]
   \<and> findUserWithFewestTasks exampleRuntime exampleDb = Inr carol"
proof -
  have act: "findActiveUsers exampleDb \<noteq> []"
    by (simp add: findActiveUsers_def exampleDb_def alice_def)
  have r: "0 \<le> mathRandom exampleRuntime" "mathRandom exampleRuntime < 1"
    by (simp_all add: exampleRuntime_def)
  have c: "userTaskCounts exampleDb = [(alice, 2), (bob, 0), (carol, 0)]"
    by (simp add: userTaskCounts_def countDocuments_def findActiveUsers_def exampleDb_def
        exampleTask_def alice_def bob_def carol_def dave_def)
  have m: "usersWithMinTasks exampleDb = [(bob, 0), (carol, 0)]"
    unfolding usersWithMinTasks_def c by simp
  have k: "randomIndex (mathRandom exampleRuntime) (Suc (Suc 0)) = Suc 0"
    by (simp add: randomIndex_def exampleRuntime_def)
  from smart_assign_least_loaded[OF act r]
  have "findUserWithFewestTasks exampleRuntime exampleDb =
      Inr (fst (usersWithMinTasks exampleDb
                 ! randomIndex (mathRandom exampleRuntime) (length (usersWithMinTasks exampleDb))))"
    by blast
  then have "findUserWithFewestTasks exampleRuntime exampleDb = Inr carol"
    unfolding m using k by simp
  then show ?thesis using c m by (simp add: alice_def bob_def carol_def)
qed

subsection \<open>Smart-Assign without an active user\<close>

text \<open>
  C8, as the code has it. When no user is active, \<^verbatim>\<open>smartAssignTask\<close> on a stored,
  non-archived task changes nothing in the database. A stale version is answered with the
  409 conflict first; otherwise \<^verbatim>\<open>findUserWithFewestTasks\<close> throws, the handler's
  catch-all answers 500 with the message \<^verbatim>\<open>Error in smart assign\<close>, the same response as for
  any other error: there is no response of its own for the missing user.
\<close>

theorem smartAssign_no_active_user:
  assumes act: "findActiveUsers st = []"
    and f: "findById i (tasks st) = Some t" and na: "\<not> isArchived t"
  shows "snd (smartAssignTask rt req i cv st) = st
     \<and> fst (smartAssignTask rt req i cv st) =
         (if conflictCheck cv t then conflictResponse cv t
          else Response 500 [(''message'', JStr ''Error in smart assign'')])"
  using assms by (simp add: smartAssignTask_def findUserWithFewestTasks_def)

theorem smartAssign_no_active_user_witness:
  "findActiveUsers deactivatedDb = []
   \<and> snd (smartAssignTask exampleRuntime (requestOf alice) 13 (Some 1) deactivatedDb) = deactivatedDb
   \<and> statusCode (fst (smartAssignTask exampleRuntime (requestOf alice) 13 (Some 1) deactivatedDb))
       = 500"
proof -
  have act: "findActiveUsers deactivatedDb = []"
    by (simp add: findActiveUsers_def deactivatedDb_def alice_def dave_def)
  have f: "findById 13 (tasks deactivatedDb) = Some (exampleTask 13 ''Update docs'' 2 None)"
    by (simp add: deactivatedDb_def exampleDb_def findById_def exampleTask_def)
  have na: "\<not> isArchived (exampleTask 13 ''Update docs'' 2 None)"
    by (simp add: exampleTask_def)
  show ?thesis
    using smartAssign_no_active_user[OF act f na, of exampleRuntime "requestOf alice" "Some 1"] act
    by (simp add: conflictCheck_def hasConflict_def exampleTask_def)
qed

text \<open>
  The claim as the spec states it fails on the board without active users: the answer is
  the generic 500.
\<close>

theorem smartAssign_generic_error_counterexample:
  "findActiveUsers deactivatedDb = []
   \<and> map_option isArchived (findById 13 (tasks deactivatedDb)) = Some False
   \<and> fst (smartAssignTask exampleRuntime (requestOf alice) 13 (Some 1) deactivatedDb)
       = Response 500 [(''message'', JStr ''Error in smart assign'')]"
  by (simp add: findActiveUsers_def deactivatedDb_def eval_defs findUserWithFewestTasks_def)

subsection \<open>Who may archive and delete\<close>

text \<open>
  \<^verbatim>\<open>archiveTask\<close> succeeds for every actor, on a task that passes the validators of its
  schema; \<^verbatim>\<open>deleteTask\<close> is refused for an actor who is
  neither the creator nor an administrator, and succeeds for the creator or an
  administrator.
\<close>

lemma archiveTask_any_actor:
  assumes f: "findById i (tasks st) = Some t" and na: "\<not> isArchived t"
    and valid: "validationErrors rt t = []" and safe: "isSafeInteger (version t)"
  shows "statusCode (fst (archiveTask rt req i st)) = 200
     \<and> findById i (tasks (snd (archiveTask rt req i st))) =
         Some (t\<lparr>isArchived := True, archivedAt := Some (clock rt),
                  archivedBy := Some (userId (reqUser req)), version := version t + 1,
                  lastModified := clock rt, updatedAt := clock rt\<rparr>)"
proof -
  let ?doc = "archive rt (userId (reqUser req)) t"
  let ?d = "?doc\<lparr>version := plusOne (version ?doc), lastModified := clock rt,
                 updatedAt := clock rt\<rparr>"
  have id: "taskId t = i" using f by (simp add: findById_Some)
  have v: "validationErrors rt ?doc = []"
    using valid validationErrors_same[of ?doc t rt] by (simp add: archive_def)
  have ne: "?doc \<noteq> t"
  proof
    assume "?doc = t"
    from arg_cong[OF this, of isArchived] show False using na by (simp add: archive_def)
  qed
  have s: "save rt (Some t) ?doc st =
     Inr (?d, st\<lparr>tasks := map (\<lambda>x. if taskId x = taskId ?doc then ?d else x) (tasks st)\<rparr>)"
    by (rule save_existing_ok[OF v ne])
  have tid: "taskId ?doc = i" "taskId ?d = i" using id by (simp_all add: archive_def)
  have pv: "plusOne (version ?doc) = version t + 1"
    using plusOne_safe[OF safe] by (simp add: archive_def)
  have "findById i (map (\<lambda>x. if taskId x = i then ?d else x) (tasks st)) = Some ?d"
    by (rule findById_replace[OF f tid(2)])
  then show ?thesis
    using f na s tid pv by (simp add: archiveTask_def tasks_logActivity) (simp add: archive_def)
qed

lemma deleteTask_forbidden:
  assumes f: "findById i (tasks st) = Some t" and na: "\<not> isArchived t"
    and other: "createdBy t \<noteq> userId (reqUser req)" "role (reqUser req) \<noteq> ''admin''"
  shows "deleteTask rt req i st =
           (Response 403 [(''message'', JStr ''You can only delete tasks you created'')], st)"
  using assms by (simp add: deleteTask_def)

lemma deleteTask_allowed:
  assumes f: "findById i (tasks st) = Some t" and na: "\<not> isArchived t"
    and own: "createdBy t = userId (reqUser req) \<or> role (reqUser req) = ''admin''"
  shows "statusCode (fst (deleteTask rt req i st)) = 200
     \<and> findById i (tasks (snd (deleteTask rt req i st))) = None"
  using assms by (auto simp: deleteTask_def tasks_logActivity findById_filter_out)

text \<open>
  C9 on the example board. Task 11 was created by Alice; Bob is a member and not its
  creator. His delete request is refused with 403, as the claim says. His archive request
  is answered with 200 and the task is archived by him: \<^verbatim>\<open>archiveTask\<close> has no check of the
  creator or the role, which \<^verbatim>\<open>deleteTask\<close> has.
\<close>

theorem archive_by_other_member:
  "map_option createdBy (findById 11 (tasks exampleDb)) = Some 1
   \<and> userId bob = 2 \<and> role bob = ''member''
   \<and> fst (deleteTask exampleRuntime (requestOf bob) 11 exampleDb)
       = Response 403 [(''message'', JStr ''You can only delete tasks you created'')]
   \<and> fst (archiveTask exampleRuntime (requestOf bob) 11 exampleDb)
       = Response 200 [(''message'', JStr ''Task archived successfully'')]
   \<and> map_option (\<lambda>x. (isArchived x, archivedBy x))
        (findById 11 (tasks (snd (archiveTask exampleRuntime (requestOf bob) 11 exampleDb))))
       = Some (True, Some 2)"
  by (simp add: eval_defs)

theorem archive_by_other_member_witness:
  "statusCode (fst (archiveTask exampleRuntime (requestOf bob) 11 exampleDb)) = 200
   \<and> statusCode (fst (deleteTask exampleRuntime (requestOf bob) 11 exampleDb)) = 403"
  using archive_by_other_member by simp

subsection \<open>The conflict response of an update\<close>

text \<open>
  The answer of \<^verbatim>\<open>updateTask\<close> to a stale, truthy version, on any stored non-archived task.
\<close>

lemma updateTask_conflict:
  assumes f: "findById i (tasks st) = Some t" and na: "\<not> isArchived t"
    and v: "u_version b = Some cv" "cv \<noteq> 0" "cv < version t"
  shows "updateTask rt req i b st =
     (Response 409
        [(''message'', JStr ''Conflict detected: Task has been modified by another user''),
         (''conflict'', JObj [(''clientVersion'', JNum cv),
                             (''serverVersion'', JNum (version t)),
                             (''serverTask'', JTask t),
                             (''lastModifiedBy'', JRef (lastModifiedBy t))])],
      logActivity rt
        ((taskActivity req conflict_detected (Some i)
            [(''taskTitle'', title t), (''otherUser'', ''Unknown'')] ''medium''
            [(''clientVersion'', JNum cv), (''serverVersion'', JNum (version t)),
             (''conflictType'', JStr ''version_mismatch'')])
         \<lparr>conflictId := Some (randomUUID rt), isResolved := False\<rparr>)
        st)"
  using assms findById_Some[OF f]
  by (simp add: updateTask_def conflictCheck_def hasConflict_def jsNum_def)

text \<open>
  C1 on the board where every version is 2. Bob sends an update of task 11 with version 1.
  The request is answered with 409 and the task is unchanged; the conflict descriptor has
  the keys \<^verbatim>\<open>clientVersion\<close>, \<^verbatim>\<open>serverVersion\<close>, \<^verbatim>\<open>serverTask\<close> and \<^verbatim>\<open>lastModifiedBy\<close> and no
  \<^verbatim>\<open>conflictId\<close>. The fresh UUID is only in the logged \<^verbatim>\<open>conflict_detected\<close> activity, which
  is unresolved.
\<close>

theorem conflict_descriptor_without_id:
  "map_option version (findById 11 (tasks staleDb)) = Some 2
   \<and> fst (putTask exampleRuntime (requestOf bob) 11
        (emptyUpdate\<lparr>u_priority := Some High, u_version := Some 1\<rparr>) staleDb)
     = Response 409
        [(''message'', JStr ''Conflict detected: Task has been modified by another user''),
         (''conflict'',
          JObj [(''clientVersion'', JNum 1), (''serverVersion'', JNum 2),
                (''serverTask'',
                 JTask ((exampleTask 11 ''Write tests'' 0 (Some 1))
                          \<lparr>version := 2, lastModifiedBy := Some 3\<rparr>)),
                (''lastModifiedBy'', JRef (Some 3))])]
   \<and> tasks (snd (putTask exampleRuntime (requestOf bob) 11
        (emptyUpdate\<lparr>u_priority := Some High, u_version := Some 1\<rparr>) staleDb)) = tasks staleDb
   \<and> map (\<lambda>a. (action a, conflictId a, isResolved a))
        (activities (snd (putTask exampleRuntime (requestOf bob) 11
           (emptyUpdate\<lparr>u_priority := Some High, u_version := Some 1\<rparr>) staleDb)))
     = [(conflict_detected, Some ''3b241101-e2bb-4255-8caf-4136c566a962'', False)]"
  by (simp add: staleDb_def eval_defs jsNum_def taskActivity_def activityValid_def
      ipValidator_def detail_def newActivity_def)

theorem conflict_descriptor_without_id_witness:
  "statusCode (fst (putTask exampleRuntime (requestOf bob) 11
        (emptyUpdate\<lparr>u_priority := Some High, u_version := Some 1\<rparr>) staleDb)) = 409"
  using conflict_descriptor_without_id by simp

subsection \<open>When the version check runs\<close>













end
